theory Spec2Isabelle
  imports Complex_Main "HOL-Library.Sublist"
begin

section \<open>vite-plugin-zip: the size formatter and the archive assembler\<close>

text \<open>
  The plugin of \<^verbatim>\<open>src/index.ts\<close> has three parts: \<^verbatim>\<open>formatFileSize\<close> (a pure
  function), \<^verbatim>\<open>zipOutput\<close> (the assembler, which drives the archiver, the file
  system and the two user hooks) and \<^verbatim>\<open>vitePluginZip\<close> (option defaults and the
  \<^verbatim>\<open>closeBundle\<close> handler). Each is embedded below in the order of the source.

  The archiver, \<^verbatim>\<open>node:fs\<close> and \<^verbatim>\<open>node:path\<close> are not part of the repository.
  What the plugin asks of them is recorded, call by call, in a trace; what they
  answer is a field of the record \<open>world\<close>. The collaborators and the two hooks are
  taken to return normally: the source has no \<^verbatim>\<open>throw\<close> and no \<^verbatim>\<open>try\<close> of its
  own. The descriptive members of the plugin object (\<^verbatim>\<open>name\<close>, \<^verbatim>\<open>apply\<close>,
  \<^verbatim>\<open>enforce\<close>, \<^verbatim>\<open>sequential\<close>) and the compression level are left out.
\<close>

subsection \<open>Number.prototype.toFixed(2)\<close>

text \<open>
  A JavaScript number is modelled by its exact value, a rational. A byte count is an
  integer that a double holds exactly, and dividing a double that is at least 1024 by
  1024 only lowers its exponent, so every value \<^verbatim>\<open>formatFileSize\<close> computes on
  the way is held exactly and the arithmetic of the source is the arithmetic of \<open>rat\<close>.

  \<^verbatim>\<open>toFixed\<close> follows ECMA-262 (Number.prototype.toFixed, with f = 2): a minus sign
  for a negative value; for a value of \<open>10^21\<close> or more the result of
  Number::toString, which is the exponential notation and is left to the parameter
  \<open>toStr\<close>; otherwise the integer \<open>n\<close> for which \<open>n / 100 - x\<close> is closest to zero (the
  larger one on a tie), written in decimal, padded with zeros to three digits, with
  a point before the last two. \<open>digit_char\<close> is only applied to a number below ten.
\<close>

definition digit_char :: "nat \<Rightarrow> char" where
  "digit_char d = ''0123456789'' ! d"

fun digits :: "nat \<Rightarrow> string" where
  "digits n = (if n < 10 then [digit_char n] else digits (n div 10) @ [digit_char (n mod 10)])"

declare digits.simps [simp del]

definition toFixed2 :: "(rat \<Rightarrow> string) \<Rightarrow> rat \<Rightarrow> string" where
  "toFixed2 toStr x0 =
     (let s = (if x0 < 0 then ''-'' else '''');
          x = (if x0 < 0 then - x0 else x0)
      in if x \<ge> 10 ^ 21 then s @ toStr x
         else
           let n = nat \<lfloor>x * 100 + 1 / 2\<rfloor>;
               m = digits n;
               m' = (if length m \<le> 2 then replicate (3 - length m) (CHR ''0'') @ m else m);
               k = length m'
           in s @ take (k - 2) m' @ ''.'' @ drop (k - 2) m')"

subsection \<open>formatFileSize\<close>

definition units :: "string list" where
  "units = [''B'', ''KB'', ''MB'', ''GB'', ''TB'']"

text \<open>
  The \<^verbatim>\<open>while\<close> loop of the source, on the pair of its two variables. The index
  grows towards \<open>length units - 1\<close>, which bounds the number of rounds.
\<close>

function scale :: "rat \<Rightarrow> nat \<Rightarrow> rat \<times> nat" where
  "scale sz index =
     (if sz \<ge> 1024 \<and> index < length units - 1 then scale (sz / 1024) (index + 1)
      else (sz, index))"
  by pat_completeness auto
termination
  by (relation "measure (\<lambda>(sz, index). length units - 1 - index)") auto

declare scale.simps [simp del]

text \<open>
  Reading \<^verbatim>\<open>units[index]\<close> beyond the array gives \<^verbatim>\<open>undefined\<close>, which the
  template literal prints as such; \<open>scale_index\<close> below shows the read stays inside.
\<close>

definition formatFileSize :: "(rat \<Rightarrow> string) \<Rightarrow> rat \<Rightarrow> string" where
  "formatFileSize toStr size0 =
     (case scale size0 0 of
        (sz, index) \<Rightarrow>
          toFixed2 toStr sz @ '' '' @
          (if index < length units then units ! index else ''undefined''))"

text \<open>
  Number::toString at the one argument the largest example below passes to it:
  \<^verbatim>\<open>String(1e21)\<close> is \<^verbatim>\<open>"1e+21"\<close>.
\<close>

definition toString_1e21 :: "rat \<Rightarrow> string" where
  "toString_1e21 x = ''1e+21''"

subsection \<open>The archiver, the file system and the trace\<close>

text \<open>
  A \<^verbatim>\<open>Dirent\<close> of \<^verbatim>\<open>node:fs\<close>, with the three members the source reads.
\<close>

record Dirent =
  name :: string
  parentPath :: string
  isFile :: bool

text \<open>The type \<^verbatim>\<open>string[] | string\<close> of the two pattern options.\<close>

datatype patterns = Single string | Many "string list"

text \<open>
  The methods of the archiver that the source and the hooks of the test suite call:
  \<^verbatim>\<open>directory(dirpath, destpath)\<close>, \<^verbatim>\<open>file(filepath, {name})\<close>,
  \<^verbatim>\<open>append(content, {name})\<close> and \<^verbatim>\<open>finalize()\<close>.
\<close>

datatype archive_call =
    Directory string string
  | File string string
  | Append string string
  | Finalize

text \<open>
  Every effect of an assembly run is an event of its trace, oldest first: opening the
  write stream, the glob enumeration (with the three arguments the source passes), each
  invocation of a hook, and each call the archiver receives, tagged with who made it.
\<close>

datatype origin = Assembler | UserHook

datatype event =
    CreateWriteStream string
  | GlobSync patterns string "string list"
  | HandleFileCalled Dirent bool
  | BeforeCloseCalled
  | ArchiveCall origin archive_call

type_synonym trace = "event list"

text \<open>
  \<^verbatim>\<open>ResolvedOptions\<close>. A hook is a closure that is handed the archiver: it may
  look at everything that happened so far (the trace) and answers with the calls it
  makes on the archiver; \<^verbatim>\<open>handleFile\<close> also answers whether it handled the entry.
  \<^verbatim>\<open>null\<close> is \<open>None\<close>.
\<close>

record ResolvedOptions =
  opt_include :: patterns
  opt_exclude :: patterns
  opt_zipName :: string
  opt_silent :: bool
  opt_handleFile :: "(trace \<Rightarrow> Dirent \<Rightarrow> bool \<times> archive_call list) option"
  opt_beforeClose :: "trace \<Rightarrow> archive_call list"

text \<open>The two members of vite's \<^verbatim>\<open>ResolvedConfig\<close> that the source reads.\<close>

record ResolvedConfig =
  root :: string
  outDir :: string

text \<open>
  What the collaborators answer: \<^verbatim>\<open>path.join\<close>, \<^verbatim>\<open>path.relative\<close>, whether a glob
  pattern matches a path below a working directory, the directory entries the glob
  enumeration finds on disk when it runs, the files (as paths relative to the directory)
  that the archiver finds when it walks a directory, and Number::toString.
\<close>

record world =
  path_join :: "string \<Rightarrow> string \<Rightarrow> string"
  path_relative :: "string \<Rightarrow> string \<Rightarrow> string"
  glob_matches :: "string \<Rightarrow> string \<Rightarrow> string \<Rightarrow> bool"
  fs_entries :: "Dirent list"
  dir_walk :: "string \<Rightarrow> string list"
  number_toString :: "rat \<Rightarrow> string"

fun pattern_list :: "patterns \<Rightarrow> string list" where
  "pattern_list (Single s) = [s]"
| "pattern_list (Many ss) = ss"

text \<open>
  Modelled from the spec: the glob enumeration \<^verbatim>\<open>fs.globSync(pattern, {cwd, exclude,
  withFileTypes: true})\<close> belongs to the runtime, not to the repository. The spec gives
  its contract: "given include/exclude pattern lists and a working directory, returns the
  matching directory entries with type information", and "candidates matching any exclude
  pattern are removed from the candidate set regardless of include matches". An entry is
  matched by its path, \<^verbatim>\<open>path.join(parentPath, name)\<close>, which is also the path
  the source computes for it.
\<close>

definition globSync :: "world \<Rightarrow> patterns \<Rightarrow> string \<Rightarrow> string list \<Rightarrow> Dirent list" where
  "globSync w pattern cwd excl =
     filter
       (\<lambda>d. let p = path_join w (parentPath d) (name d)
            in list_ex (\<lambda>g. glob_matches w cwd g p) (pattern_list pattern) \<and>
               \<not> list_ex (\<lambda>g. glob_matches w cwd g p) excl)
       (fs_entries w)"

text \<open>
  Modelled from the spec: what the archive holds after a call belongs to the archiver.
  For the directory-add primitive the spec says "add the entire output directory to the
  archive as a single recursive directory entry rooted at a fixed top-level name" and
  "all output-directory contents nested under a fixed top-level folder name"; a file or
  a literal content is entered under the name given with it.
\<close>

fun entry_names :: "world \<Rightarrow> archive_call \<Rightarrow> string list" where
  "entry_names w (Directory dirpath destpath) =
     map (\<lambda>rel. destpath @ ''/'' @ rel) (dir_walk w dirpath)"
| "entry_names w (File filepath entryName) = [entryName]"
| "entry_names w (Append content entryName) = [entryName]"
| "entry_names w Finalize = []"

fun archive_calls :: "trace \<Rightarrow> archive_call list" where
  "archive_calls [] = []"
| "archive_calls (ArchiveCall who c # tr) = c # archive_calls tr"
| "archive_calls (e # tr) = archive_calls tr"

fun assembler_calls :: "trace \<Rightarrow> archive_call list" where
  "assembler_calls [] = []"
| "assembler_calls (ArchiveCall Assembler c # tr) = c # assembler_calls tr"
| "assembler_calls (e # tr) = assembler_calls tr"

definition archive_entries :: "world \<Rightarrow> trace \<Rightarrow> string list" where
  "archive_entries w tr = concat (map (entry_names w) (archive_calls tr))"

fun is_GlobSync :: "event \<Rightarrow> bool" where
  "is_GlobSync (GlobSync pattern cwd excl) = True"
| "is_GlobSync e = False"

fun is_Directory :: "archive_call \<Rightarrow> bool" where
  "is_Directory (Directory dirpath destpath) = True"
| "is_Directory c = False"

subsection \<open>zipOutput: the synchronous part\<close>

text \<open>The test of the fast path, and \<^verbatim>\<open>excludeArr\<close>.\<close>

definition fastpath :: "ResolvedOptions \<Rightarrow> bool" where
  "fastpath pluginOptions \<longleftrightarrow>
     opt_include pluginOptions = Single ''dist/**/*'' \<and>
     opt_exclude pluginOptions = Many [] \<and>
     opt_handleFile pluginOptions = None"

definition excludeArr :: "ResolvedOptions \<Rightarrow> string list" where
  "excludeArr pluginOptions =
     (case opt_exclude pluginOptions of Many ss \<Rightarrow> ss | Single s \<Rightarrow> [s])"

text \<open>The default insertion: \<^verbatim>\<open>archive.file(filePath, { name: relFilePath })\<close>.\<close>

definition default_entry :: "world \<Rightarrow> string \<Rightarrow> Dirent \<Rightarrow> archive_call" where
  "default_entry w cwd dirEnt =
     (let filePath = path_join w (parentPath dirEnt) (name dirEnt);
          relFilePath = path_relative w cwd filePath
      in File filePath relFilePath)"

text \<open>One round of \<^verbatim>\<open>for (const dirEnt of allFiles)\<close>, and the loop.\<close>

definition loop_body :: "world \<Rightarrow> ResolvedOptions \<Rightarrow> string \<Rightarrow> trace \<Rightarrow> Dirent \<Rightarrow> trace" where
  "loop_body w pluginOptions cwd tr dirEnt =
     (if \<not> isFile dirEnt then tr
      else
        case opt_handleFile pluginOptions of
          None \<Rightarrow> tr @ [ArchiveCall Assembler (default_entry w cwd dirEnt)]
        | Some handleFile \<Rightarrow>
            (case handleFile tr dirEnt of
               (handled, calls) \<Rightarrow>
                 let tr' = tr @ HandleFileCalled dirEnt handled # map (ArchiveCall UserHook) calls
                 in if handled then tr'
                    else tr' @ [ArchiveCall Assembler (default_entry w cwd dirEnt)]))"

fun for_allFiles :: "world \<Rightarrow> ResolvedOptions \<Rightarrow> string \<Rightarrow> trace \<Rightarrow> Dirent list \<Rightarrow> trace" where
  "for_allFiles w pluginOptions cwd tr [] = tr"
| "for_allFiles w pluginOptions cwd tr (dirEnt # rest) =
     for_allFiles w pluginOptions cwd (loop_body w pluginOptions cwd tr dirEnt) rest"

text \<open>
  The two statements that end both paths:
  \<^verbatim>\<open>pluginOptions.beforeClose(archive); archive.finalize();\<close>
\<close>

definition finish :: "ResolvedOptions \<Rightarrow> trace \<Rightarrow> trace" where
  "finish pluginOptions tr =
     tr @ BeforeCloseCalled # map (ArchiveCall UserHook) (opt_beforeClose pluginOptions tr)
        @ [ArchiveCall Assembler Finalize]"

definition zipOutput :: "world \<Rightarrow> ResolvedOptions \<Rightarrow> ResolvedConfig \<Rightarrow> trace" where
  "zipOutput w pluginOptions viteConfig =
     (let cwd = root viteConfig;
          distDir = path_join w cwd (outDir viteConfig);
          ZIP_OUT_FILE = path_join w distDir (opt_zipName pluginOptions);
          tr = [CreateWriteStream ZIP_OUT_FILE]
      in if fastpath pluginOptions
         then finish pluginOptions (tr @ [ArchiveCall Assembler (Directory distDir ''dist'')])
         else
           let allFiles = globSync w (opt_include pluginOptions) cwd (excludeArr pluginOptions)
           in finish pluginOptions
                (for_allFiles w pluginOptions cwd
                   (tr @ [GlobSync (opt_include pluginOptions) cwd (excludeArr pluginOptions)])
                   allFiles))"

subsection \<open>zipOutput: the deferred result\<close>

text \<open>
  \<^verbatim>\<open>Promise.withResolvers()\<close> gives a promise that the first \<^verbatim>\<open>resolve\<close> or
  \<^verbatim>\<open>reject\<close> settles for good. The three listeners of the source act on it and on
  the console; the events they answer come from the archiver and from the write stream,
  the close event with the value of \<^verbatim>\<open>archive.pointer()\<close> at that time.
\<close>

datatype archiver_error = ArchiverError (err_code: string) (err_message: string)

datatype promise_state = Pending | Resolved | Rejected archiver_error

datatype console_entry = LogLine string | LogError archiver_error

datatype engine_event =
    OutputClose nat
  | ArchiveWarning archiver_error
  | ArchiveErrorEvent archiver_error

record completion =
  promise :: promise_state
  console :: "console_entry list"

definition resolve :: "completion \<Rightarrow> completion" where
  "resolve c = (if promise c = Pending then c\<lparr>promise := Resolved\<rparr> else c)"

definition reject :: "archiver_error \<Rightarrow> completion \<Rightarrow> completion" where
  "reject err c = (if promise c = Pending then c\<lparr>promise := Rejected err\<rparr> else c)"

definition console_log :: "console_entry \<Rightarrow> completion \<Rightarrow> completion" where
  "console_log x c = c\<lparr>console := console c @ [x]\<rparr>"

definition on_close :: "world \<Rightarrow> ResolvedOptions \<Rightarrow> nat \<Rightarrow> completion \<Rightarrow> completion" where
  "on_close w pluginOptions pointer c =
     resolve
       (if \<not> opt_silent pluginOptions
        then console_log
               (LogLine (opt_zipName pluginOptions @ '' size: '' @
                         formatFileSize (number_toString w) (of_nat pointer))) c
        else c)"

definition on_warning :: "archiver_error \<Rightarrow> completion \<Rightarrow> completion" where
  "on_warning err c =
     (if err_code err = ''ENOENT'' then console_log (LogError err) c else reject err c)"

definition on_error :: "archiver_error \<Rightarrow> completion \<Rightarrow> completion" where
  "on_error err c = reject err c"

fun dispatch :: "world \<Rightarrow> ResolvedOptions \<Rightarrow> completion \<Rightarrow> engine_event \<Rightarrow> completion" where
  "dispatch w pluginOptions c (OutputClose pointer) = on_close w pluginOptions pointer c"
| "dispatch w pluginOptions c (ArchiveWarning err) = on_warning err c"
| "dispatch w pluginOptions c (ArchiveErrorEvent err) = on_error err c"

definition settle :: "world \<Rightarrow> ResolvedOptions \<Rightarrow> engine_event list \<Rightarrow> completion" where
  "settle w pluginOptions evs =
     foldl (dispatch w pluginOptions) \<lparr>promise = Pending, console = []\<rparr> evs"

subsection \<open>vitePluginZip\<close>

record UserOptions =
  user_include :: "patterns option"
  user_exclude :: "patterns option"
  user_zipName :: "string option"
  user_silent :: "bool option"
  user_handleFile :: "(trace \<Rightarrow> Dirent \<Rightarrow> bool \<times> archive_call list) option"
  user_beforeClose :: "(trace \<Rightarrow> archive_call list) option"

text \<open>The argument \<^verbatim>\<open>{}\<close>, which is also the default of the parameter.\<close>

definition no_options :: UserOptions where
  "no_options =
     \<lparr>user_include = None, user_exclude = None, user_zipName = None, user_silent = None,
      user_handleFile = None, user_beforeClose = None\<rparr>"

text \<open>The constant \<^verbatim>\<open>pluginOptions\<close>: each member with \<^verbatim>\<open>??\<close> and its default.\<close>

definition resolveOptions :: "UserOptions \<Rightarrow> ResolvedOptions" where
  "resolveOptions userOptions =
     \<lparr>opt_include =
        (case user_include userOptions of Some i \<Rightarrow> i | None \<Rightarrow> Single ''dist/**/*''),
      opt_exclude = (case user_exclude userOptions of Some e \<Rightarrow> e | None \<Rightarrow> Many []),
      opt_zipName = (case user_zipName userOptions of Some z \<Rightarrow> z | None \<Rightarrow> ''dist.zip''),
      opt_silent = (case user_silent userOptions of Some b \<Rightarrow> b | None \<Rightarrow> False),
      opt_handleFile = user_handleFile userOptions,
      opt_beforeClose =
        (case user_beforeClose userOptions of Some f \<Rightarrow> f | None \<Rightarrow> (\<lambda>tr. []))\<rparr>"

text \<open>
  \<^verbatim>\<open>closeBundle.handler(error)\<close>, for the configuration that
  \<^verbatim>\<open>configResolved\<close> stored. With an error the handler returns at once, so its own
  promise resolves and nothing has happened; without one it awaits \<^verbatim>\<open>zipOutput\<close>,
  whose trace and deferred result (after the events \<open>evs\<close> of the engine) are its own.
\<close>

record run =
  actions :: trace
  result :: completion

definition closeBundle_handler ::
  "world \<Rightarrow> UserOptions \<Rightarrow> ResolvedConfig \<Rightarrow> string option \<Rightarrow> engine_event list \<Rightarrow> run" where
  "closeBundle_handler w userOptions config error evs =
     (let pluginOptions = resolveOptions userOptions
      in case error of
           Some e \<Rightarrow> \<lparr>actions = [], result = \<lparr>promise = Resolved, console = []\<rparr>\<rparr>
         | None \<Rightarrow>
             \<lparr>actions = zipOutput w pluginOptions config,
              result = settle w pluginOptions evs\<rparr>)"

subsection \<open>A project on disk, for the examples\<close>

text \<open>
  The examples run the plugin on the project of the test suite: a root \<^verbatim>\<open>/proj\<close> with
  \<^verbatim>\<open>index.html\<close>, \<^verbatim>\<open>app.js\<close> and \<^verbatim>\<open>assets/logo.svg\<close> in its output directory.
  Its paths are POSIX paths without \<^verbatim>\<open>.\<close>, \<^verbatim>\<open>..\<close> or doubled separators, so that
  \<^verbatim>\<open>path.join\<close> puts one separator between its operands and \<^verbatim>\<open>path.relative\<close> of
  a path below the working directory drops the directory. The patterns are matched
  segment by segment: \<^verbatim>\<open>**\<close> stands for any number of segments, \<^verbatim>\<open>*\<close> inside
  a segment for any run of characters.
\<close>

fun split_path :: "string \<Rightarrow> string list" where
  "split_path [] = [[]]"
| "split_path (c # cs) =
     (if c = CHR ''/'' then [] # split_path cs
      else case split_path cs of seg # segs \<Rightarrow> (c # seg) # segs | [] \<Rightarrow> [[c]])"

fun seg_match :: "string \<Rightarrow> string \<Rightarrow> bool" where
  "seg_match [] s = (s = [])"
| "seg_match (p # ps) [] = (p = CHR ''*'' \<and> seg_match ps [])"
| "seg_match (p # ps) (c # cs) =
     (if p = CHR ''*'' then seg_match ps (c # cs) \<or> seg_match (p # ps) cs
      else p = c \<and> seg_match ps cs)"

fun glob_segs :: "string list \<Rightarrow> string list \<Rightarrow> bool" where
  "glob_segs [] ss = (ss = [])"
| "glob_segs (p # ps) [] = (p = ''**'' \<and> glob_segs ps [])"
| "glob_segs (p # ps) (s # ss) =
     (if p = ''**'' then glob_segs ps (s # ss) \<or> glob_segs (p # ps) ss
      else seg_match p s \<and> glob_segs ps ss)"

definition posix_join :: "string \<Rightarrow> string \<Rightarrow> string" where
  "posix_join a b = a @ ''/'' @ b"

definition posix_relative :: "string \<Rightarrow> string \<Rightarrow> string" where
  "posix_relative from to =
     (if prefix (from @ ''/'') to then drop (length from + 1) to else to)"

definition posix_matches :: "string \<Rightarrow> string \<Rightarrow> string \<Rightarrow> bool" where
  "posix_matches cwd pat p = glob_segs (split_path pat) (split_path (posix_relative cwd p))"

definition project :: "Dirent list \<Rightarrow> (string \<Rightarrow> string list) \<Rightarrow> world" where
  "project entries walk =
     \<lparr>path_join = posix_join, path_relative = posix_relative,
      glob_matches = posix_matches, fs_entries = entries, dir_walk = walk,
      number_toString = toString_1e21\<rparr>"

definition index_html :: Dirent where
  "index_html = \<lparr>name = ''index.html'', parentPath = ''/proj/dist'', isFile = True\<rparr>"

definition app_js :: Dirent where
  "app_js = \<lparr>name = ''app.js'', parentPath = ''/proj/dist'', isFile = True\<rparr>"

definition assets_dir :: Dirent where
  "assets_dir = \<lparr>name = ''assets'', parentPath = ''/proj/dist'', isFile = False\<rparr>"

definition logo_svg :: Dirent where
  "logo_svg = \<lparr>name = ''logo.svg'', parentPath = ''/proj/dist/assets'', isFile = True\<rparr>"

definition dist_entries :: "Dirent list" where
  "dist_entries = [index_html, app_js, assets_dir, logo_svg]"

definition dist_walk :: "string \<Rightarrow> string list" where
  "dist_walk d =
     (if d = ''/proj/dist'' then [''index.html'', ''app.js'', ''assets/logo.svg''] else [])"

definition dist_config :: ResolvedConfig where
  "dist_config = \<lparr>root = ''/proj'', outDir = ''dist''\<rparr>"

definition dist_project :: world where
  "dist_project = project dist_entries dist_walk"

text \<open>The same project built into \<^verbatim>\<open>build\<close> instead, with one file.\<close>

definition build_index :: Dirent where
  "build_index = \<lparr>name = ''index.html'', parentPath = ''/proj/build'', isFile = True\<rparr>"

definition build_walk :: "string \<Rightarrow> string list" where
  "build_walk d = (if d = ''/proj/build'' then [''index.html''] else [])"

definition build_config :: ResolvedConfig where
  "build_config = \<lparr>root = ''/proj'', outDir = ''build''\<rparr>"

definition build_project :: world where
  "build_project = project [build_index] build_walk"

text \<open>
  The output directory when the enumeration finds the archive of the run in it, and a
  \<^verbatim>\<open>handleFile\<close> hook that claims that entry and nothing else.
\<close>

definition dist_zip :: Dirent where
  "dist_zip = \<lparr>name = ''dist.zip'', parentPath = ''/proj/dist'', isFile = True\<rparr>"

definition zip_project :: world where
  "zip_project = project (dist_entries @ [dist_zip]) dist_walk"

definition claim_zip :: "trace \<Rightarrow> Dirent \<Rightarrow> bool \<times> archive_call list" where
  "claim_zip tr dirEnt = (name dirEnt = ''dist.zip'', [])"

text \<open>
  Two hooks of the test suite: \<^verbatim>\<open>handleFile\<close> enters \<^verbatim>\<open>app.js\<close> under a name of
  its own and reports it handled; \<^verbatim>\<open>beforeClose\<close> appends a literal content.
\<close>

definition rename_app :: "trace \<Rightarrow> Dirent \<Rightarrow> bool \<times> archive_call list" where
  "rename_app tr dirEnt =
     (if name dirEnt = ''app.js''
      then (True, [File (posix_join (parentPath dirEnt) (name dirEnt)) ''custom/renamed-app.js''])
      else (False, []))"

definition add_custom :: "trace \<Rightarrow> archive_call list" where
  "add_custom tr = [Append ''Custom content'' ''custom-file.txt'']"

text \<open>A \<^verbatim>\<open>beforeClose\<close> hook that enters the logo of the project itself.\<close>

definition add_logo :: "trace \<Rightarrow> archive_call list" where
  "add_logo tr = [File ''/proj/dist/assets/logo.svg'' ''dist/assets/logo.svg'']"

section \<open>The size formatter\<close>

subsection \<open>Decimal digits and toFixed\<close>

lemma floor_rat_numeral:
  "\<lfloor>(numeral a :: rat) / numeral b\<rfloor> = numeral a div numeral b"
  using floor_divide_of_int_eq [of "numeral a" "numeral b", where ?'a = rat] by simp

lemma digits_small: "n < 10 \<Longrightarrow> digits n = [digit_char n]"
  by (simp add: digits.simps)

lemma digits_large: "10 \<le> n \<Longrightarrow> digits n = digits (n div 10) @ [digit_char (n mod 10)]"
  by (subst digits.simps) simp

lemma digits_two:
  "10 \<le> n \<Longrightarrow> n < 100 \<Longrightarrow> digits n = [digit_char (n div 10), digit_char (n mod 10)]"
  by (simp add: digits_large digits_small)

lemma digits_three:
  assumes "100 \<le> n"
  shows "digits n = digits (n div 100) @ [digit_char (n mod 100 div 10), digit_char (n mod 10)]"
proof -
  have a: "digits n = digits (n div 10) @ [digit_char (n mod 10)]"
    using assms by (simp add: digits_large)
  have "10 \<le> n div 10" using assms by simp
  then have b: "digits (n div 10) = digits (n div 10 div 10) @ [digit_char (n div 10 mod 10)]"
    by (rule digits_large)
  have c: "n div 10 div 10 = n div 100" by (simp add: div_mult2_eq)
  have "n mod (10 * 10) = 10 * (n div 10 mod 10) + n mod 10"
    by (rule mod_mult2_eq)
  then have d: "n div 10 mod 10 = n mod 100 div 10"
    by simp
  show ?thesis using a b c d by simp
qed

lemma digits_nonempty: "digits n \<noteq> []"
  by (subst digits.simps) simp

lemma point_digits:
  "(let m = digits n;
        m' = (if length m \<le> 2 then replicate (3 - length m) (CHR ''0'') @ m else m);
        k = length m'
    in take (k - 2) m' @ ''.'' @ drop (k - 2) m') =
   digits (n div 100) @ ''.'' @ [digit_char (n mod 100 div 10), digit_char (n mod 10)]"
proof -
  consider "n < 10" | "10 \<le> n" "n < 100" | "100 \<le> n" by linarith
  then show ?thesis
  proof cases
    case 1
    then show ?thesis
      by (simp add: digits_small digit_char_def)
  next
    case 2
    then show ?thesis
      by (simp add: digits_two digits_small digit_char_def)
  next
    case 3
    then show ?thesis
      by (simp add: digits_three digits_nonempty)
  qed
qed

lemma toFixed2_fixed:
  assumes "0 \<le> x" "x < 10 ^ 21"
  shows "toFixed2 toStr x =
     (let n = nat \<lfloor>x * 100 + 1 / 2\<rfloor>
      in digits (n div 100) @ ''.'' @ [digit_char (n mod 100 div 10), digit_char (n mod 10)])"
proof -
  let ?n = "nat \<lfloor>x * 100 + 1 / 2\<rfloor>"
  have "toFixed2 toStr x =
     (let m = digits ?n;
          m' = (if length m \<le> 2 then replicate (3 - length m) (CHR ''0'') @ m else m);
          k = length m'
      in take (k - 2) m' @ ''.'' @ drop (k - 2) m')"
    using assms by (simp add: toFixed2_def Let_def)
  also have "\<dots> =
     digits (?n div 100) @ ''.'' @ [digit_char (?n mod 100 div 10), digit_char (?n mod 10)]"
    by (rule point_digits)
  finally show ?thesis by (simp add: Let_def)
qed

lemma toFixed2_exponential: "10 ^ 21 \<le> x \<Longrightarrow> toFixed2 toStr x = toStr x"
  by (simp add: toFixed2_def)

subsection \<open>The scaling loop\<close>

lemma scale_stop: "sz < 1024 \<or> 4 \<le> index \<Longrightarrow> scale sz index = (sz, index)"
  by (subst scale.simps) (auto simp: units_def)

lemma scale_step:
  "1024 \<le> sz \<Longrightarrow> index < 4 \<Longrightarrow> scale sz index = scale (sz / 1024) (index + 1)"
  by (subst scale.simps) (auto simp: units_def)

lemma scale_top: "1024 ^ 4 \<le> x \<Longrightarrow> scale x 0 = (x / 1024 ^ 4, 4)"
  by (simp add: scale_step scale_stop)

lemma scale_rat:
  fixes x :: rat
  shows "\<exists>k. scale x 0 = (x / 1024 ^ k, k) \<and> k \<le> 4 \<and>
       (k < 4 \<longrightarrow> x < 1024 ^ (k + 1)) \<and> (0 < k \<longrightarrow> 1024 ^ k \<le> x)"
proof -
  consider (a) "x < 1024" | (b) "1024 \<le> x" "x < 1024 ^ 2" | (c) "1024 ^ 2 \<le> x" "x < 1024 ^ 3"
    | (d) "1024 ^ 3 \<le> x" "x < 1024 ^ 4" | (e) "1024 ^ 4 \<le> x" by linarith
  then show ?thesis
  proof cases
    case a
    then have "scale x 0 = (x / 1024 ^ 0, 0)" by (simp add: scale_stop)
    then show ?thesis using a by (intro exI [of _ 0]) simp
  next
    case b
    then have "scale x 0 = (x / 1024 ^ 1, 1)" by (simp add: scale_step scale_stop)
    then show ?thesis using b by (intro exI [of _ 1]) simp
  next
    case c
    then have "scale x 0 = (x / 1024 ^ 2, 2)" by (simp add: scale_step scale_stop)
    then show ?thesis using c by (intro exI [of _ 2]) simp
  next
    case d
    then have "scale x 0 = (x / 1024 ^ 3, 3)" by (simp add: scale_step scale_stop)
    then show ?thesis using d by (intro exI [of _ 3]) simp
  next
    case e
    then have "scale x 0 = (x / 1024 ^ 4, 4)" by (rule scale_top)
    then show ?thesis using e by (intro exI [of _ 4]) simp
  qed
qed

lemma scale_index: "snd (scale x 0) < length units"
  using scale_rat [of x] by (auto simp: units_def)

lemma rat_of_nat_less_pow: "(of_nat n :: rat) < 1024 ^ j \<longleftrightarrow> n < 1024 ^ j"
  by (metis of_nat_less_iff of_nat_numeral of_nat_power)

lemma rat_of_nat_ge_pow: "(1024 :: rat) ^ j \<le> of_nat n \<longleftrightarrow> 1024 ^ j \<le> n"
  by (metis of_nat_le_iff of_nat_numeral of_nat_power)

lemma units_nth: "k \<le> 4 \<Longrightarrow> k < length units"
  by (simp add: units_def)

subsection \<open>The formatted size\<close>

lemma formatFileSize_below:
  fixes n :: nat
  assumes "n < 10 ^ 21 * 1024 ^ 4"
  shows "\<exists>k. k \<le> 4 \<and> (k < 4 \<longrightarrow> n < 1024 ^ (k + 1)) \<and> (0 < k \<longrightarrow> 1024 ^ k \<le> n) \<and>
     formatFileSize toStr (of_nat n) =
       (let m = nat \<lfloor>(of_nat n :: rat) / 1024 ^ k * 100 + 1 / 2\<rfloor>
        in digits (m div 100) @ ''.'' @ [digit_char (m mod 100 div 10), digit_char (m mod 10)]
           @ '' '' @ units ! k)"
proof -
  let ?x = "of_nat n :: rat"
  from scale_rat [of ?x]
  obtain k where k: "scale ?x 0 = (?x / 1024 ^ k, k)" "k \<le> 4"
      "k < 4 \<longrightarrow> ?x < 1024 ^ (k + 1)" "0 < k \<longrightarrow> 1024 ^ k \<le> ?x"
    by (elim exE conjE)
  have nonneg: "0 \<le> ?x / 1024 ^ k" by simp
  have "?x < of_nat (10 ^ 21 * 1024 ^ 4)"
    using assms by (simp only: of_nat_less_iff)
  then have "?x < 10 ^ 21 * 1024 ^ 4"
    by simp
  then have top: "?x / 1024 ^ 4 < 10 ^ 21"
    by (simp add: divide_less_eq)
  have small: "?x / 1024 ^ k < 10 ^ 21"
  proof (cases "k < 4")
    case True
    then have "?x < 1024 ^ (k + 1)" using k(3) by simp
    then have "?x / 1024 ^ k < 1024" by (simp add: divide_less_eq)
    then show ?thesis by simp
  next
    case False
    then have "k = 4" using k(2) by simp
    then show ?thesis using top by simp
  qed
  have "formatFileSize toStr ?x = toFixed2 toStr (?x / 1024 ^ k) @ '' '' @ units ! k"
    using k(1) units_nth [OF k(2)] by (simp add: formatFileSize_def)
  then have f: "formatFileSize toStr ?x =
       (let m = nat \<lfloor>?x / 1024 ^ k * 100 + 1 / 2\<rfloor>
        in digits (m div 100) @ ''.'' @ [digit_char (m mod 100 div 10), digit_char (m mod 10)]
           @ '' '' @ units ! k)"
    by (simp add: toFixed2_fixed [OF nonneg small] Let_def)
  have a: "k < 4 \<longrightarrow> n < 1024 ^ (k + 1)"
    using k(3) by (simp only: rat_of_nat_less_pow)
  have b: "0 < k \<longrightarrow> 1024 ^ k \<le> n"
    using k(4) by (simp only: rat_of_nat_ge_pow)
  show ?thesis
    by (intro exI [of _ k] conjI) (rule k(2) a b f)+
qed


lemma formatFileSize_above:
  fixes n :: nat
  assumes "10 ^ 21 * 1024 ^ 4 \<le> n"
  shows "formatFileSize toStr (of_nat n) = toStr (of_nat n / 1024 ^ 4) @ '' TB''"
proof -
  let ?x = "of_nat n :: rat"
  have "of_nat (10 ^ 21 * 1024 ^ 4) \<le> ?x"
    using assms by (simp only: of_nat_le_iff)
  then have big: "10 ^ 21 * 1024 ^ 4 \<le> ?x"
    by simp
  then have "1024 ^ 4 \<le> ?x" by simp
  then have s: "scale ?x 0 = (?x / 1024 ^ 4, 4)" by (rule scale_top)
  have "10 ^ 21 \<le> ?x / 1024 ^ 4" using big by (simp add: le_divide_eq)
  then have "toFixed2 toStr (?x / 1024 ^ 4) = toStr (?x / 1024 ^ 4)"
    by (rule toFixed2_exponential)
  then show ?thesis using s by (simp add: formatFileSize_def units_def)
qed

lemma floor_rat_one: "\<lfloor>(1 :: rat) / numeral b\<rfloor> = 1 div numeral b"
  using floor_divide_of_int_eq [of 1 "numeral b", where ?'a = rat] by simp

lemmas format_eval =
  formatFileSize_def scale_step scale_stop toFixed2_def floor_rat_numeral floor_rat_one
  digits_small digits_large digit_char_def units_def

lemma format_0: "formatFileSize toStr 0 = ''0.00 B''"
  by (simp add: format_eval)

lemma format_1024: "formatFileSize toStr 1024 = ''1.00 KB''"
  by (simp add: format_eval)

lemma format_1536: "formatFileSize toStr 1536 = ''1.50 KB''"
  by (simp add: format_eval)

lemma format_TB: "formatFileSize toStr (1024 ^ 4) = ''1.00 TB''"
  by (simp add: format_eval)

lemma format_9999TB: "formatFileSize toStr (1024 ^ 4 * 9999) = ''9999.00 TB''"
  by (simp add: format_eval)

lemma format_1e21TB: "formatFileSize toString_1e21 (10 ^ 21 * 1024 ^ 4) = ''1e+21 TB''"
  by (simp add: format_eval toString_1e21_def)

lemma format_1234567: "formatFileSize toStr 1234567 = ''1.18 MB''"
  by (simp add: format_eval)

text \<open>
  Claim C7, as the code has it. For every byte count \<open>n\<close> below \<open>10^21 * 1024^4\<close>
  (a scaled value below \<open>10^21\<close> TB), \<^verbatim>\<open>formatFileSize(n)\<close> is the value
  \<open>n / 1024^k\<close>, where \<open>k \<le> 4\<close> counts the divisions of the loop: the loop stops at the
  first unit of B, KB, MB, GB, TB in which the value is below 1024 (\<open>n < 1024^(k+1)\<close>
  unless the unit is TB), so the value is at least 1 in every unit above B
  (\<open>1024^k \<le> n\<close>). The value is rounded half up to hundredths \<open>m\<close> and written as the
  decimal digits of \<open>m div 100\<close>, a point, exactly two digits, one space and the unit.
  The function is total, so it is defined and deterministic for every \<open>n\<close>. In
  particular 0 gives \<^verbatim>\<open>0.00 B\<close>, 1024 gives \<^verbatim>\<open>1.00 KB\<close>, 1536 gives \<^verbatim>\<open>1.50 KB\<close>,
  \<open>1024^4\<close> gives \<^verbatim>\<open>1.00 TB\<close> and \<open>1024^4 * 9999\<close> gives \<^verbatim>\<open>9999.00 TB\<close>, which ends
  with TB.
\<close>

theorem formatFileSize_fixed_point:
  fixes n :: nat
  shows "(n < 10 ^ 21 * 1024 ^ 4 \<longrightarrow>
           (\<exists>k. k \<le> 4 \<and> (k < 4 \<longrightarrow> n < 1024 ^ (k + 1)) \<and> (0 < k \<longrightarrow> 1024 ^ k \<le> n) \<and>
              formatFileSize toStr (of_nat n) =
                (let m = nat \<lfloor>(of_nat n :: rat) / 1024 ^ k * 100 + 1 / 2\<rfloor>
                 in digits (m div 100) @ ''.'' @
                    [digit_char (m mod 100 div 10), digit_char (m mod 10)] @ '' '' @ units ! k))) \<and>
         formatFileSize toStr 0 = ''0.00 B'' \<and>
         formatFileSize toStr 1024 = ''1.00 KB'' \<and>
         formatFileSize toStr 1536 = ''1.50 KB'' \<and>
         formatFileSize toStr (1024 ^ 4) = ''1.00 TB'' \<and>
         formatFileSize toStr (1024 ^ 4 * 9999) = ''9999.00 TB''"
  using formatFileSize_below [of n toStr]
  by (intro conjI impI format_0 format_1024 format_1536 format_TB format_9999TB)

text \<open>The theorem at 1234567 bytes, which are below the bound.\<close>

theorem formatFileSize_fixed_point_witness:
  "(1234567 :: nat) < 10 ^ 21 * 1024 ^ 4 \<and>
   (\<exists>k. k \<le> 4 \<and> (k < 4 \<longrightarrow> (1234567 :: nat) < 1024 ^ (k + 1)) \<and>
        (0 < k \<longrightarrow> 1024 ^ k \<le> (1234567 :: nat)) \<and>
        formatFileSize toString_1e21 (of_nat (1234567 :: nat)) =
          (let m = nat \<lfloor>(of_nat (1234567 :: nat) :: rat) / 1024 ^ k * 100 + 1 / 2\<rfloor>
           in digits (m div 100) @ ''.'' @
              [digit_char (m mod 100 div 10), digit_char (m mod 10)] @ '' '' @ units ! k))"
  (is "?bound \<and> ?format")
proof -
  have bound: ?bound by simp
  have "?bound \<longrightarrow> ?format"
    using formatFileSize_fixed_point [of 1234567 toString_1e21] by (rule conjunct1)
  then have ?format using bound by (rule mp)
  with bound show ?thesis by (rule conjI)
qed

text \<open>
  Claim C7 as the spec words it, for every byte count, fails at \<open>10^21 * 1024^4\<close> bytes:
  the loop leaves \<open>10^21\<close> TB, and from \<open>10^21\<close> on \<^verbatim>\<open>toFixed(2)\<close> answers with
  the exponential notation of the number, which has no decimal places.
\<close>

theorem formatFileSize_exponential:
  "formatFileSize toString_1e21 (of_nat (10 ^ 21 * 1024 ^ 4)) = ''1e+21 TB'' \<and>
   CHR ''.'' \<notin> set (formatFileSize toString_1e21 (of_nat (10 ^ 21 * 1024 ^ 4)))"
  using format_1e21TB by simp

section \<open>The assembler\<close>

subsection \<open>Reading a trace\<close>

lemma archive_calls_append: "archive_calls (xs @ ys) = archive_calls xs @ archive_calls ys"
  by (induction xs rule: archive_calls.induct) simp_all

lemma assembler_calls_append:
  "assembler_calls (xs @ ys) = assembler_calls xs @ assembler_calls ys"
  by (induction xs rule: assembler_calls.induct) simp_all

lemma archive_calls_hook: "archive_calls (map (ArchiveCall who) cs) = cs"
  by (induction cs) simp_all

lemma assembler_calls_hook: "assembler_calls (map (ArchiveCall UserHook) cs) = []"
  by (induction cs) simp_all

lemma assembler_calls_mem:
  "c \<in> set (assembler_calls tr) \<longleftrightarrow> ArchiveCall Assembler c \<in> set tr"
  by (induction tr rule: assembler_calls.induct) auto

lemma archive_calls_mem:
  "c \<in> set (archive_calls tr) \<longleftrightarrow> (\<exists>who. ArchiveCall who c \<in> set tr)"
  by (induction tr rule: archive_calls.induct) auto

subsection \<open>The loop\<close>

text \<open>
  What one round may add to the trace: a call of a user hook, or, for a plain file
  among the entries, the invocation of \<^verbatim>\<open>handleFile\<close> and the default insertion.
\<close>

lemma loop_body_adds:
  "\<exists>added. loop_body w po cwd tr d = tr @ added \<and>
     (\<forall>e \<in> set added.
        (\<exists>c. e = ArchiveCall UserHook c) \<or>
        isFile d \<and> (e = ArchiveCall Assembler (default_entry w cwd d) \<or>
                    (\<exists>r. e = HandleFileCalled d r)))"
  by (auto simp: loop_body_def Let_def split: option.splits prod.splits)

lemma for_allFiles_adds:
  "\<exists>added. for_allFiles w po cwd tr ds = tr @ added \<and>
     (\<forall>e \<in> set added.
        (\<exists>c. e = ArchiveCall UserHook c) \<or>
        (\<exists>d \<in> set ds. isFile d \<and>
           (e = ArchiveCall Assembler (default_entry w cwd d) \<or>
            (\<exists>r. e = HandleFileCalled d r))))"
proof (induction ds arbitrary: tr)
  case Nil
  then show ?case by simp
next
  case (Cons d ds)
  obtain a1 where a1: "loop_body w po cwd tr d = tr @ a1"
    "\<forall>e \<in> set a1. (\<exists>c. e = ArchiveCall UserHook c) \<or>
        isFile d \<and> (e = ArchiveCall Assembler (default_entry w cwd d) \<or>
                    (\<exists>r. e = HandleFileCalled d r))"
    using loop_body_adds [of w po cwd tr d] by blast
  obtain a2 where a2: "for_allFiles w po cwd (tr @ a1) ds = (tr @ a1) @ a2"
    "\<forall>e \<in> set a2. (\<exists>c. e = ArchiveCall UserHook c) \<or>
        (\<exists>d \<in> set ds. isFile d \<and>
           (e = ArchiveCall Assembler (default_entry w cwd d) \<or>
            (\<exists>r. e = HandleFileCalled d r)))"
    using Cons.IH [of "tr @ a1"] by blast
  have "for_allFiles w po cwd tr (d # ds) = tr @ (a1 @ a2)"
    using a1(1) a2(1) by simp
  moreover have "\<forall>e \<in> set (a1 @ a2). (\<exists>c. e = ArchiveCall UserHook c) \<or>
        (\<exists>d' \<in> set (d # ds). isFile d' \<and>
           (e = ArchiveCall Assembler (default_entry w cwd d') \<or>
            (\<exists>r. e = HandleFileCalled d' r)))"
    using a1(2) a2(2) by auto
  ultimately show ?case by blast
qed

lemma for_allFiles_append:
  "for_allFiles w po cwd tr (xs @ ys) = for_allFiles w po cwd (for_allFiles w po cwd tr xs) ys"
  by (induction xs arbitrary: tr) simp_all

lemma default_entry_File:
  "default_entry w cwd d =
     File (path_join w (parentPath d) (name d))
          (path_relative w cwd (path_join w (parentPath d) (name d)))"
  by (simp add: default_entry_def Let_def)


lemma for_allFiles_added:
  obtains added where "for_allFiles w po cwd tr ds = tr @ added"
    and "\<And>e. e \<in> set added \<Longrightarrow> \<not> is_GlobSync e"
    and "BeforeCloseCalled \<notin> set added"
    and "\<And>p. CreateWriteStream p \<notin> set added"
    and "\<And>c. ArchiveCall Assembler c \<in> set added \<Longrightarrow>
           \<exists>d \<in> set ds. isFile d \<and> c = default_entry w cwd d"
    and "\<And>d r. HandleFileCalled d r \<in> set added \<Longrightarrow> d \<in> set ds \<and> isFile d"
proof -
  obtain added where eq: "for_allFiles w po cwd tr ds = tr @ added"
    and ev: "\<forall>e \<in> set added.
        (\<exists>c. e = ArchiveCall UserHook c) \<or>
        (\<exists>d \<in> set ds. isFile d \<and>
           (e = ArchiveCall Assembler (default_entry w cwd d) \<or>
            (\<exists>r. e = HandleFileCalled d r)))"
    using for_allFiles_adds by blast
  show thesis
  proof (rule that [of added])
    show "for_allFiles w po cwd tr ds = tr @ added" by (rule eq)
    show "\<not> is_GlobSync e" if "e \<in> set added" for e
      using ev that by fastforce
    show "BeforeCloseCalled \<notin> set added"
      using ev by fastforce
    show "CreateWriteStream p \<notin> set added" for p
      using ev by fastforce
    show "\<exists>d \<in> set ds. isFile d \<and> c = default_entry w cwd d"
      if "ArchiveCall Assembler c \<in> set added" for c
      using ev that by fastforce
    show "d \<in> set ds \<and> isFile d" if "HandleFileCalled d r \<in> set added" for d r
      using ev that by fastforce
  qed
qed

lemma loop_keeps: "set tr \<subseteq> set (for_allFiles w po cwd tr ds)"
  using for_allFiles_adds [of w po cwd tr ds] by auto

subsection \<open>The two paths\<close>

lemma finish_adds:
  "finish po tr =
     tr @ BeforeCloseCalled # map (ArchiveCall UserHook) (opt_beforeClose po tr)
        @ [ArchiveCall Assembler Finalize]"
  by (simp add: finish_def)

lemma zipOutput_fast:
  assumes "fastpath po"
  shows "zipOutput w po vc =
     [CreateWriteStream (path_join w (path_join w (root vc) (outDir vc)) (opt_zipName po)),
      ArchiveCall Assembler (Directory (path_join w (root vc) (outDir vc)) ''dist''),
      BeforeCloseCalled]
     @ map (ArchiveCall UserHook)
         (opt_beforeClose po
            [CreateWriteStream (path_join w (path_join w (root vc) (outDir vc)) (opt_zipName po)),
             ArchiveCall Assembler (Directory (path_join w (root vc) (outDir vc)) ''dist'')])
     @ [ArchiveCall Assembler Finalize]"
  using assms by (simp add: zipOutput_def finish_def Let_def)

lemma zipOutput_general:
  assumes "\<not> fastpath po"
  shows "zipOutput w po vc =
     finish po
       (for_allFiles w po (root vc)
          [CreateWriteStream (path_join w (path_join w (root vc) (outDir vc)) (opt_zipName po)),
           GlobSync (opt_include po) (root vc) (excludeArr po)]
          (globSync w (opt_include po) (root vc) (excludeArr po)))"
  using assms by (simp add: zipOutput_def Let_def)

lemma fast_observed:
  assumes "fastpath po"
  shows "assembler_calls (zipOutput w po vc) =
           [Directory (path_join w (root vc) (outDir vc)) ''dist'', Finalize]"
    and "\<not> list_ex is_GlobSync (zipOutput w po vc)"
  using assms
  by (auto simp: zipOutput_fast assembler_calls_append assembler_calls_hook list_ex_iff)

lemma general_observed:
  assumes "\<not> fastpath po"
  shows "filter is_GlobSync (zipOutput w po vc) =
           [GlobSync (opt_include po) (root vc) (excludeArr po)]"
    and "\<not> list_ex is_Directory (assembler_calls (zipOutput w po vc))"
proof -
  let ?tr = "[CreateWriteStream (path_join w (path_join w (root vc) (outDir vc)) (opt_zipName po)),
           GlobSync (opt_include po) (root vc) (excludeArr po)]"
  let ?ds = "globSync w (opt_include po) (root vc) (excludeArr po)"
  obtain added where added: "for_allFiles w po (root vc) ?tr ?ds = ?tr @ added"
    and noglob: "\<And>e. e \<in> set added \<Longrightarrow> \<not> is_GlobSync e"
    and files: "\<And>c. ArchiveCall Assembler c \<in> set added \<Longrightarrow>
           \<exists>d \<in> set ?ds. isFile d \<and> c = default_entry w (root vc) d"
    by (rule for_allFiles_added [of w po "root vc" ?tr ?ds]) blast
  have z: "zipOutput w po vc = finish po (?tr @ added)"
    using assms added by (simp add: zipOutput_general)
  have "filter is_GlobSync added = []"
    using noglob by (simp add: filter_empty_conv)
  then show "filter is_GlobSync (zipOutput w po vc) =
           [GlobSync (opt_include po) (root vc) (excludeArr po)]"
    by (simp add: z finish_def filter_empty_conv)
  have "\<not> is_Directory c" if "c \<in> set (assembler_calls added)" for c
  proof -
    have "ArchiveCall Assembler c \<in> set added"
      using that by (simp add: assembler_calls_mem)
    then obtain d where "c = default_entry w (root vc) d"
      using files by blast
    then show ?thesis by (simp add: default_entry_File)
  qed
  then show "\<not> list_ex is_Directory (assembler_calls (zipOutput w po vc))"
    by (auto simp: z finish_def assembler_calls_append assembler_calls_hook list_ex_iff)
qed

lemma loop_body_file:
  assumes "isFile d"
  shows "loop_body w po cwd tr d =
     tr @ (case opt_handleFile po of
             None \<Rightarrow> [ArchiveCall Assembler (default_entry w cwd d)]
           | Some handleFile \<Rightarrow>
               HandleFileCalled d (fst (handleFile tr d)) #
               map (ArchiveCall UserHook) (snd (handleFile tr d)) @
               (if fst (handleFile tr d) then []
                else [ArchiveCall Assembler (default_entry w cwd d)]))"
  using assms by (simp add: loop_body_def Let_def split: option.splits prod.splits)

lemma globSync_mem:
  "d \<in> set (globSync w pattern cwd excl) \<longleftrightarrow>
     d \<in> set (fs_entries w) \<and>
     list_ex (\<lambda>g. glob_matches w cwd g (path_join w (parentPath d) (name d)))
       (pattern_list pattern) \<and>
     \<not> list_ex (\<lambda>g. glob_matches w cwd g (path_join w (parentPath d) (name d))) excl"
  by (auto simp: globSync_def Let_def)

lemma fastpath_excludeArr: "fastpath po \<Longrightarrow> excludeArr po = []"
  by (simp add: fastpath_def excludeArr_def)

lemma for_allFiles_no_hook:
  assumes "opt_handleFile po = None"
  shows "for_allFiles w po cwd tr ds =
     tr @ map (\<lambda>d. ArchiveCall Assembler (default_entry w cwd d)) (filter isFile ds)"
  using assms by (induction ds arbitrary: tr) (simp_all add: loop_body_def)

lemma for_allFiles_options:
  assumes "opt_handleFile po = opt_handleFile po'"
  shows "for_allFiles w po cwd tr ds = for_allFiles w po' cwd tr ds"
  using assms by (induction ds arbitrary: tr) (simp_all add: loop_body_def)

lemma single_exclude:
  "zipOutput w (po\<lparr>opt_exclude := Single s\<rparr>) vc = zipOutput w (po\<lparr>opt_exclude := Many [s]\<rparr>) vc"
proof -
  have "for_allFiles w (po\<lparr>opt_exclude := Single s\<rparr>) cwd tr ds =
        for_allFiles w (po\<lparr>opt_exclude := Many [s]\<rparr>) cwd tr ds" for cwd tr ds
    by (rule for_allFiles_options) simp
  then show ?thesis
    by (simp add: zipOutput_def fastpath_def excludeArr_def finish_def Let_def)
qed

text \<open>Where an event of a run on the general path can come from.\<close>

lemma general_events:
  assumes "\<not> fastpath po" and "e \<in> set (zipOutput w po vc)"
  shows "(\<exists>p. e = CreateWriteStream p) \<or> is_GlobSync e \<or> e = BeforeCloseCalled \<or>
         e = ArchiveCall Assembler Finalize \<or> (\<exists>c. e = ArchiveCall UserHook c) \<or>
         (\<exists>d \<in> set (globSync w (opt_include po) (root vc) (excludeArr po)). isFile d \<and>
            (e = ArchiveCall Assembler (default_entry w (root vc) d) \<or>
             (\<exists>r. e = HandleFileCalled d r)))"
proof -
  let ?tr = "[CreateWriteStream (path_join w (path_join w (root vc) (outDir vc)) (opt_zipName po)),
           GlobSync (opt_include po) (root vc) (excludeArr po)]"
  let ?ds = "globSync w (opt_include po) (root vc) (excludeArr po)"
  obtain added where added: "for_allFiles w po (root vc) ?tr ?ds = ?tr @ added"
    and ev: "\<forall>e \<in> set added.
        (\<exists>c. e = ArchiveCall UserHook c) \<or>
        (\<exists>d \<in> set ?ds. isFile d \<and>
           (e = ArchiveCall Assembler (default_entry w (root vc) d) \<or>
            (\<exists>r. e = HandleFileCalled d r)))"
    using for_allFiles_adds by blast
  have "zipOutput w po vc = finish po (?tr @ added)"
    using assms(1) added by (simp add: zipOutput_general)
  then have "e \<in> set ?tr \<or> e \<in> set added \<or> e = BeforeCloseCalled \<or>
      (\<exists>c. e = ArchiveCall UserHook c) \<or> e = ArchiveCall Assembler Finalize"
    using assms(2) by (auto simp: finish_def)
  then show ?thesis using ev by fastforce
qed

lemma own_entry_origin:
  assumes "ArchiveCall Assembler (File p entryName) \<in> set (zipOutput w po vc)"
  shows "\<not> fastpath po \<and>
     (\<exists>d \<in> set (fs_entries w). isFile d \<and> path_join w (parentPath d) (name d) = p \<and>
        list_ex (\<lambda>g. glob_matches w (root vc) g p) (pattern_list (opt_include po)) \<and>
        \<not> list_ex (\<lambda>g. glob_matches w (root vc) g p) (excludeArr po))"
proof -
  have slow: "\<not> fastpath po"
  proof
    assume "fastpath po"
    then show False using assms by (auto simp: zipOutput_fast)
  qed
  from general_events [OF slow assms]
  obtain d where d: "d \<in> set (globSync w (opt_include po) (root vc) (excludeArr po))"
    "isFile d" "File p entryName = default_entry w (root vc) d"
    by auto
  from d(3) have "path_join w (parentPath d) (name d) = p"
    by (simp add: default_entry_File)
  with d(1,2) slow show ?thesis
    by (auto simp: globSync_mem)
qed

subsection \<open>The closing statements\<close>

text \<open>The trace when control reaches \<^verbatim>\<open>beforeClose\<close>, on either path.\<close>

lemma zipOutput_finish:
  "\<exists>pre. zipOutput w po vc = finish po pre \<and>
     BeforeCloseCalled \<notin> set pre \<and> ArchiveCall Assembler Finalize \<notin> set pre"
proof (cases "fastpath po")
  case True
  then show ?thesis
    by (intro exI [of _ "[CreateWriteStream
          (path_join w (path_join w (root vc) (outDir vc)) (opt_zipName po)),
        ArchiveCall Assembler (Directory (path_join w (root vc) (outDir vc)) ''dist'')]"])
      (simp add: zipOutput_def finish_def Let_def)
next
  case False
  let ?tr = "[CreateWriteStream (path_join w (path_join w (root vc) (outDir vc)) (opt_zipName po)),
           GlobSync (opt_include po) (root vc) (excludeArr po)]"
  let ?ds = "globSync w (opt_include po) (root vc) (excludeArr po)"
  obtain added where added: "for_allFiles w po (root vc) ?tr ?ds = ?tr @ added"
    and nohook: "BeforeCloseCalled \<notin> set added"
    and files: "\<And>c. ArchiveCall Assembler c \<in> set added \<Longrightarrow>
           \<exists>d \<in> set ?ds. isFile d \<and> c = default_entry w (root vc) d"
    by (rule for_allFiles_added [of w po "root vc" ?tr ?ds]) blast
  have "ArchiveCall Assembler Finalize \<notin> set added"
    using files by (fastforce simp: default_entry_File)
  then show ?thesis
    using False added nohook
    by (intro exI [of _ "?tr @ added"]) (simp add: zipOutput_general)
qed

subsection \<open>Default insertion of an enumerated file\<close>

lemma loop_body_inserts:
  assumes "isFile d" and "\<And>h tr. opt_handleFile po = Some h \<Longrightarrow> \<not> fst (h tr d)"
  shows "ArchiveCall Assembler (default_entry w cwd d) \<in> set (loop_body w po cwd tr d)"
  using assms by (auto simp: loop_body_file split: option.splits)

lemma for_allFiles_inserts:
  assumes "d \<in> set ds" and "isFile d"
    and "\<And>h tr. opt_handleFile po = Some h \<Longrightarrow> \<not> fst (h tr d)"
  shows "ArchiveCall Assembler (default_entry w cwd d) \<in> set (for_allFiles w po cwd tr ds)"
  using assms(1)
proof (induction ds arbitrary: tr)
  case Nil
  then show ?case by simp
next
  case (Cons x xs)
  show ?case
  proof (cases "x = d")
    case True
    have "ArchiveCall Assembler (default_entry w cwd d) \<in> set (loop_body w po cwd tr d)"
      using assms(2,3) by (rule loop_body_inserts)
    then show ?thesis
      using True loop_keeps [of "loop_body w po cwd tr d" w po cwd xs] by auto
  next
    case False
    then have "d \<in> set xs" using Cons.prems by simp
    then show ?thesis using Cons.IH by simp
  qed
qed

lemma fast_entries:
  assumes "fastpath po"
  shows "set (map (\<lambda>rel. ''dist/'' @ rel) (dir_walk w (path_join w (root vc) (outDir vc))))
           \<subseteq> set (archive_entries w (zipOutput w po vc))"
  using assms
  by (auto simp: zipOutput_fast archive_entries_def archive_calls_append archive_calls_hook)

lemma resolve_no_options:
  "resolveOptions no_options =
     \<lparr>opt_include = Single ''dist/**/*'', opt_exclude = Many [], opt_zipName = ''dist.zip'',
      opt_silent = False, opt_handleFile = None, opt_beforeClose = (\<lambda>tr. [])\<rparr>"
  by (simp add: resolveOptions_def no_options_def)

subsection \<open>The deferred result\<close>

lemma dispatch_settled:
  "promise c \<noteq> Pending \<Longrightarrow> promise (dispatch w po c e) = promise c"
  by (cases e)
    (simp_all add: on_close_def on_warning_def on_error_def resolve_def reject_def console_log_def)

lemma foldl_settled:
  "promise c \<noteq> Pending \<Longrightarrow> promise (foldl (dispatch w po) c evs) = promise c"
  by (induction evs arbitrary: c) (simp_all add: dispatch_settled)

lemma benign_warnings:
  assumes "\<forall>err \<in> set errs. err_code err = ''ENOENT''"
  shows "foldl (dispatch w po) c (map ArchiveWarning errs) =
           c\<lparr>console := console c @ map LogError errs\<rparr>"
  using assms
  by (induction errs arbitrary: c) (simp_all add: on_warning_def console_log_def)

lemma rejected_close:
  assumes "\<forall>err \<in> set errs. err_code err = ''ENOENT''"
    and "e = ArchiveErrorEvent err \<or> e = ArchiveWarning err \<and> err_code err \<noteq> ''ENOENT''"
  shows "settle w po (map ArchiveWarning errs @ [e, OutputClose pointer]) =
     \<lparr>promise = Rejected err,
      console = map LogError errs @
        (if opt_silent po then []
         else [LogLine (opt_zipName po @ '' size: '' @
                        formatFileSize (number_toString w) (of_nat pointer))])\<rparr>"
  using assms(2) benign_warnings [OF assms(1), of w po "\<lparr>promise = Pending, console = []\<rparr>"]
  by (auto simp: settle_def on_error_def on_warning_def on_close_def reject_def resolve_def
      console_log_def)

subsection \<open>Running the examples\<close>

lemmas project_eval =
  project_def dist_project_def build_project_def zip_project_def
  posix_join_def posix_relative_def posix_matches_def
  dist_entries_def index_html_def app_js_def assets_dir_def logo_svg_def dist_zip_def
  build_index_def dist_walk_def build_walk_def dist_config_def build_config_def
  resolveOptions_def no_options_def claim_zip_def rename_app_def add_custom_def add_logo_def

lemmas run_eval =
  zipOutput_def fastpath_def excludeArr_def globSync_def finish_def loop_body_def
  default_entry_def archive_entries_def closeBundle_handler_def Let_def

section \<open>The claims about the assembler\<close>

text \<open>
  Claim C1, as the code has it. For every build context (any root, any
  \<^verbatim>\<open>outDir\<close>), the plugin made with no user options resolves \<^verbatim>\<open>include\<close> to the
  literal \<^verbatim>\<open>dist/**/*\<close>, \<^verbatim>\<open>exclude\<close> to the empty list, \<^verbatim>\<open>zipName\<close> to
  \<^verbatim>\<open>dist.zip\<close>, \<^verbatim>\<open>silent\<close> to false, \<^verbatim>\<open>handleFile\<close> to null and
  \<^verbatim>\<open>beforeClose\<close> to a hook that does nothing. When the build-completion hook fires
  without an error, the run opens \<^verbatim>\<open>dist.zip\<close> inside the output directory, adds the
  output directory as one recursive directory entry rooted at the fixed name
  \<^verbatim>\<open>dist\<close>, invokes the hook and finalizes; it does not enumerate with the pattern.
  Every file the archiver finds in the output directory is entered under \<^verbatim>\<open>dist/\<close>
  followed by its path relative to the output directory.
\<close>

theorem default_invocation:
  "resolveOptions no_options =
     \<lparr>opt_include = Single ''dist/**/*'', opt_exclude = Many [], opt_zipName = ''dist.zip'',
      opt_silent = False, opt_handleFile = None, opt_beforeClose = (\<lambda>tr. [])\<rparr> \<and>
   actions (closeBundle_handler w no_options config None evs) =
     [CreateWriteStream (path_join w (path_join w (root config) (outDir config)) ''dist.zip''),
      ArchiveCall Assembler (Directory (path_join w (root config) (outDir config)) ''dist''),
      BeforeCloseCalled,
      ArchiveCall Assembler Finalize] \<and>
   archive_entries w (actions (closeBundle_handler w no_options config None evs)) =
     map (\<lambda>rel. ''dist/'' @ rel) (dir_walk w (path_join w (root config) (outDir config)))"
  by (simp add: resolve_no_options closeBundle_handler_def zipOutput_def fastpath_def
      finish_def archive_entries_def Let_def)

text \<open>The default invocation on a project whose output directory is \<^verbatim>\<open>build\<close>.\<close>

theorem default_invocation_witness:
  "archive_entries build_project
     (actions (closeBundle_handler build_project no_options build_config None [])) =
   [''dist/index.html'']"
  using default_invocation [of build_project build_config "[]"]
  by (simp add: project_eval archive_entries_def)

text \<open>
  Claim C1 as the spec words it, for any \<^verbatim>\<open>outDir\<close> name, fails for \<^verbatim>\<open>build\<close>: the
  file \<^verbatim>\<open>/proj/build/index.html\<close> is in the output directory, the default include
  pattern does not select it, and its path \<^verbatim>\<open>build/index.html\<close> below the root is not
  the name \<^verbatim>\<open>dist/index.html\<close> it has in the archive.
\<close>

theorem default_pattern_misses_outDir:
  "build_index \<in> set (fs_entries build_project) \<and>
   build_index \<notin> set (globSync build_project (opt_include (resolveOptions no_options))
                        (root build_config) []) \<and>
   path_relative build_project (root build_config)
     (path_join build_project (parentPath build_index) (name build_index)) =
     ''build/index.html'' \<and>
   archive_entries build_project
     (actions (closeBundle_handler build_project no_options build_config None [])) =
     [''dist/index.html'']"
  by (simp add: project_eval run_eval)

text \<open>
  Claim C2. The run takes the fast path if and only if \<^verbatim>\<open>include\<close> is the string
  \<^verbatim>\<open>dist/**/*\<close> itself (a list holding that string is another value), \<^verbatim>\<open>exclude\<close>
  is the empty list and \<^verbatim>\<open>handleFile\<close> is null. On the fast path, and only there,
  the assembler's own calls on the archiver are one directory entry for the output
  directory rooted at \<^verbatim>\<open>dist\<close> and the finalization, and no enumeration happens. In
  every other configuration, and only there, the enumeration happens exactly once, with
  the include patterns, the root and the exclude list of the configuration, and the
  assembler adds no directory entry.
\<close>

theorem fastpath_iff:
  "(fastpath po \<longleftrightarrow>
      opt_include po = Single ''dist/**/*'' \<and> opt_exclude po = Many [] \<and>
      opt_handleFile po = None) \<and>
   (fastpath po \<longleftrightarrow>
      assembler_calls (zipOutput w po vc) =
        [Directory (path_join w (root vc) (outDir vc)) ''dist'', Finalize] \<and>
      \<not> list_ex is_GlobSync (zipOutput w po vc)) \<and>
   (\<not> fastpath po \<longleftrightarrow>
      filter is_GlobSync (zipOutput w po vc) =
        [GlobSync (opt_include po) (root vc) (excludeArr po)] \<and>
      \<not> list_ex is_Directory (assembler_calls (zipOutput w po vc)))"
proof (intro conjI)
  show "fastpath po \<longleftrightarrow>
      opt_include po = Single ''dist/**/*'' \<and> opt_exclude po = Many [] \<and>
      opt_handleFile po = None"
    by (simp add: fastpath_def)
next
  show "fastpath po \<longleftrightarrow>
      assembler_calls (zipOutput w po vc) =
        [Directory (path_join w (root vc) (outDir vc)) ''dist'', Finalize] \<and>
      \<not> list_ex is_GlobSync (zipOutput w po vc)"
  proof (cases "fastpath po")
    case True
    then show ?thesis using fast_observed [of po w vc] by simp
  next
    case False
    then have "list_ex is_GlobSync (zipOutput w po vc)"
      using general_observed(1) [of po w vc]
      by (metis filter_empty_conv list.distinct(1) list_ex_iff)
    then show ?thesis using False by simp
  qed
next
  show "\<not> fastpath po \<longleftrightarrow>
      filter is_GlobSync (zipOutput w po vc) =
        [GlobSync (opt_include po) (root vc) (excludeArr po)] \<and>
      \<not> list_ex is_Directory (assembler_calls (zipOutput w po vc))"
  proof (cases "fastpath po")
    case True
    then have "list_ex is_Directory (assembler_calls (zipOutput w po vc))"
      using fast_observed(1) [of po w vc] by simp
    then show ?thesis using True by simp
  next
    case False
    then show ?thesis using general_observed [of po w vc] by simp
  qed
qed

text \<open>The theorem on the test project, without options and with an exclude pattern.\<close>

theorem fastpath_iff_witness:
  "fastpath (resolveOptions no_options) \<and>
   assembler_calls (zipOutput dist_project (resolveOptions no_options) dist_config) =
     [Directory ''/proj/dist'' ''dist'', Finalize] \<and>
   \<not> fastpath (resolveOptions (no_options\<lparr>user_exclude := Some (Single ''dist/**/*.svg'')\<rparr>)) \<and>
   filter is_GlobSync
     (zipOutput dist_project
        (resolveOptions (no_options\<lparr>user_exclude := Some (Single ''dist/**/*.svg'')\<rparr>))
        dist_config) =
     [GlobSync (Single ''dist/**/*'') ''/proj'' [''dist/**/*.svg'']]"
  using fastpath_iff [of "resolveOptions no_options" dist_project dist_config]
    fastpath_iff [of "resolveOptions (no_options\<lparr>user_exclude := Some (Single ''dist/**/*.svg'')\<rparr>)"
      dist_project dist_config]
  by (simp add: project_eval fastpath_def excludeArr_def)

text \<open>
  Claim C3. On the general path let \<open>dirEnt\<close> be a plain file of the enumeration,
  \<open>before\<close> the entries in front of it and \<open>tr\<close> the trace when the loop reaches it.
  Then the run goes on from \<open>tr\<close> with exactly these events for the entry, and after
  them with the entries that follow. Without a hook: the insertion of the file under its
  path relative to the root, as \<^verbatim>\<open>path.relative\<close> gives it. With a hook: its invocation
  and the calls it makes; when it returns true nothing else, so what the hook entered
  stands and there is no default insertion; when it returns false the same insertion
  as without a hook.
\<close>

theorem handleFile_contract:
  assumes general: "\<not> fastpath po"
    and enum: "globSync w (opt_include po) (root vc) (excludeArr po) = before @ dirEnt # after"
    and plain: "isFile dirEnt"
  defines "tr \<equiv>
     for_allFiles w po (root vc)
       [CreateWriteStream (path_join w (path_join w (root vc) (outDir vc)) (opt_zipName po)),
        GlobSync (opt_include po) (root vc) (excludeArr po)]
       before"
    and "filePath \<equiv> path_join w (parentPath dirEnt) (name dirEnt)"
  defines "inserted \<equiv> ArchiveCall Assembler (File filePath (path_relative w (root vc) filePath))"
  shows "zipOutput w po vc =
     finish po
       (for_allFiles w po (root vc)
          (tr @ (case opt_handleFile po of
                   None \<Rightarrow> [inserted]
                 | Some handleFile \<Rightarrow>
                     HandleFileCalled dirEnt (fst (handleFile tr dirEnt)) #
                     map (ArchiveCall UserHook) (snd (handleFile tr dirEnt)) @
                     (if fst (handleFile tr dirEnt) then [] else [inserted])))
          after)"
proof -
  have ins: "inserted = ArchiveCall Assembler (default_entry w (root vc) dirEnt)"
    by (simp add: inserted_def filePath_def default_entry_File)
  have "zipOutput w po vc =
      finish po (for_allFiles w po (root vc) (loop_body w po (root vc) tr dirEnt) after)"
    using general by (simp add: zipOutput_general enum for_allFiles_append tr_def)
  then show ?thesis
    unfolding ins by (simp only: loop_body_file [OF plain])
qed

text \<open>
  The theorem on the test project, with the hook of the test suite that enters
  \<^verbatim>\<open>app.js\<close> under a name of its own: the whole trace of the run.
\<close>

theorem handleFile_contract_witness:
  "\<not> fastpath (resolveOptions (no_options\<lparr>user_handleFile := Some rename_app\<rparr>)) \<and>
   globSync dist_project
     (opt_include (resolveOptions (no_options\<lparr>user_handleFile := Some rename_app\<rparr>)))
     (root dist_config)
     (excludeArr (resolveOptions (no_options\<lparr>user_handleFile := Some rename_app\<rparr>))) =
     [index_html] @ app_js # [assets_dir, logo_svg] \<and>
   isFile app_js \<and>
   zipOutput dist_project (resolveOptions (no_options\<lparr>user_handleFile := Some rename_app\<rparr>))
     dist_config =
     [CreateWriteStream ''/proj/dist/dist.zip'',
      GlobSync (Single ''dist/**/*'') ''/proj'' [],
      HandleFileCalled index_html False,
      ArchiveCall Assembler (File ''/proj/dist/index.html'' ''dist/index.html''),
      HandleFileCalled app_js True,
      ArchiveCall UserHook (File ''/proj/dist/app.js'' ''custom/renamed-app.js''),
      HandleFileCalled logo_svg False,
      ArchiveCall Assembler (File ''/proj/dist/assets/logo.svg'' ''dist/assets/logo.svg''),
      BeforeCloseCalled,
      ArchiveCall Assembler Finalize]"
  using handleFile_contract
    [of "resolveOptions (no_options\<lparr>user_handleFile := Some rename_app\<rparr>)" dist_project
        dist_config "[index_html]" app_js "[assets_dir, logo_svg]"]
  by (simp add: project_eval run_eval)

text \<open>
  Claim C4, as the code has it. Let the path \<open>p\<close> match one of the exclude patterns,
  whatever the include patterns are. Then, in every configuration, no entry of the
  enumeration has the path \<open>p\<close>, \<^verbatim>\<open>handleFile\<close> is never invoked for an entry
  with that path, and the assembler never inserts the file at \<open>p\<close>; when no hook is
  configured the archive receives no file call for \<open>p\<close> at all. One matching pattern
  among several is enough. A single string as \<^verbatim>\<open>exclude\<close> gives the same run as the
  list that holds just that string.
\<close>

theorem exclude_wins:
  assumes pat: "g \<in> set (excludeArr po)"
    and hit: "glob_matches w (root vc) g p"
  shows "(\<forall>d \<in> set (globSync w (opt_include po) (root vc) (excludeArr po)).
            path_join w (parentPath d) (name d) \<noteq> p) \<and>
         (\<forall>d r. path_join w (parentPath d) (name d) = p \<longrightarrow>
            HandleFileCalled d r \<notin> set (zipOutput w po vc)) \<and>
         (\<forall>entryName. ArchiveCall Assembler (File p entryName) \<notin> set (zipOutput w po vc)) \<and>
         (opt_handleFile po = None \<and> opt_beforeClose po = (\<lambda>tr. []) \<longrightarrow>
            (\<forall>entryName. File p entryName \<notin> set (archive_calls (zipOutput w po vc)))) \<and>
         zipOutput w (po\<lparr>opt_exclude := Single s\<rparr>) vc =
           zipOutput w (po\<lparr>opt_exclude := Many [s]\<rparr>) vc"
proof -
  let ?ds = "globSync w (opt_include po) (root vc) (excludeArr po)"
  have excluded: "list_ex (\<lambda>g. glob_matches w (root vc) g p) (excludeArr po)"
    using pat hit by (auto simp: list_ex_iff)
  have slow: "\<not> fastpath po"
    using pat fastpath_excludeArr [of po] by auto
  have cand: "path_join w (parentPath d) (name d) \<noteq> p" if "d \<in> set ?ds" for d
    using that excluded by (auto simp: globSync_mem)
  have hook: "HandleFileCalled d r \<notin> set (zipOutput w po vc)"
    if "path_join w (parentPath d) (name d) = p" for d r
  proof
    assume "HandleFileCalled d r \<in> set (zipOutput w po vc)"
    from general_events [OF slow this] have "d \<in> set ?ds" by auto
    with cand that show False by blast
  qed
  have ins: "ArchiveCall Assembler (File p entryName) \<notin> set (zipOutput w po vc)" for entryName
  proof
    assume "ArchiveCall Assembler (File p entryName) \<in> set (zipOutput w po vc)"
    from general_events [OF slow this]
    obtain d where "d \<in> set ?ds" "File p entryName = default_entry w (root vc) d"
      by auto
    then show False using cand by (auto simp: default_entry_File)
  qed
  have bare: "File p entryName \<notin> set (archive_calls (zipOutput w po vc))"
    if "opt_handleFile po = None" "opt_beforeClose po = (\<lambda>tr. [])" for entryName
  proof
    assume "File p entryName \<in> set (archive_calls (zipOutput w po vc))"
    then obtain who where "ArchiveCall who (File p entryName) \<in> set (zipOutput w po vc)"
      by (auto simp: archive_calls_mem)
    moreover have "ArchiveCall UserHook (File p entryName) \<notin> set (zipOutput w po vc)"
      using slow that by (auto simp: zipOutput_general for_allFiles_no_hook finish_def)
    ultimately have "ArchiveCall Assembler (File p entryName) \<in> set (zipOutput w po vc)"
      by (cases who) auto
    then show False using ins by blast
  qed
  show ?thesis
    using cand hook ins bare single_exclude by blast
qed

text \<open>
  The theorem on the test project with the exclude pattern of the test suite: the
  logo matches the include pattern and the exclude pattern, and is not in the archive.
\<close>

theorem exclude_wins_witness:
  "''dist/**/*.svg'' \<in> set (excludeArr
      (resolveOptions (no_options\<lparr>user_exclude := Some (Single ''dist/**/*.svg'')\<rparr>))) \<and>
   glob_matches dist_project (root dist_config) ''dist/**/*.svg'' ''/proj/dist/assets/logo.svg'' \<and>
   glob_matches dist_project (root dist_config) ''dist/**/*'' ''/proj/dist/assets/logo.svg'' \<and>
   archive_calls
     (zipOutput dist_project
        (resolveOptions (no_options\<lparr>user_exclude := Some (Single ''dist/**/*.svg'')\<rparr>))
        dist_config) =
     [File ''/proj/dist/index.html'' ''dist/index.html'',
      File ''/proj/dist/app.js'' ''dist/app.js'', Finalize]"
  using exclude_wins
    [of "''dist/**/*.svg''"
        "resolveOptions (no_options\<lparr>user_exclude := Some (Single ''dist/**/*.svg'')\<rparr>)"
        dist_project dist_config "''/proj/dist/assets/logo.svg''"]
  by (simp add: project_eval run_eval)

text \<open>
  Claim C4 as the spec words it, absence from the produced archive in every
  configuration, fails when a hook enters the file itself: the logo matches the exclude
  pattern, the \<^verbatim>\<open>beforeClose\<close> hook enters it, and it is in the archive.
\<close>

theorem hook_inserts_excluded:
  "''dist/**/*.svg'' \<in> set (excludeArr
      (resolveOptions (no_options\<lparr>user_exclude := Some (Single ''dist/**/*.svg''),
                                  user_beforeClose := Some add_logo\<rparr>))) \<and>
   glob_matches dist_project (root dist_config) ''dist/**/*.svg'' ''/proj/dist/assets/logo.svg'' \<and>
   archive_calls
     (zipOutput dist_project
        (resolveOptions (no_options\<lparr>user_exclude := Some (Single ''dist/**/*.svg''),
                                    user_beforeClose := Some add_logo\<rparr>))
        dist_config) =
     [File ''/proj/dist/index.html'' ''dist/index.html'',
      File ''/proj/dist/app.js'' ''dist/app.js'',
      File ''/proj/dist/assets/logo.svg'' ''dist/assets/logo.svg'', Finalize] \<and>
   ''dist/assets/logo.svg'' \<in> set (archive_entries dist_project
     (zipOutput dist_project
        (resolveOptions (no_options\<lparr>user_exclude := Some (Single ''dist/**/*.svg''),
                                    user_beforeClose := Some add_logo\<rparr>))
        dist_config))"
  by (simp add: project_eval run_eval)

text \<open>
  Claim C5. When the build-completion hook is invoked with an error, the handler returns
  at once (its promise resolves) and nothing has happened: the trace is empty, so no write
  stream was opened, no hook was invoked and the archiver received no call, and nothing
  was printed, whatever the options, the build context and the events are.
\<close>

theorem build_error_skips_assembly:
  "actions (closeBundle_handler w userOptions config (Some error) evs) = [] \<and>
   console (result (closeBundle_handler w userOptions config (Some error) evs)) = [] \<and>
   promise (result (closeBundle_handler w userOptions config (Some error) evs)) = Resolved"
  by (simp add: closeBundle_handler_def Let_def)

text \<open>The theorem on the test project.\<close>

theorem build_error_skips_assembly_witness:
  "closeBundle_handler dist_project no_options dist_config (Some ''build failed'')
     [OutputClose 1536] =
   \<lparr>actions = [], result = \<lparr>promise = Resolved, console = []\<rparr>\<rparr>"
  using build_error_skips_assembly
    [of dist_project no_options dist_config "''build failed''" "[OutputClose 1536]"]
  by (simp add: closeBundle_handler_def)

text \<open>
  Claim C6, as the code has it. While only warnings with the code \<^verbatim>\<open>ENOENT\<close> have
  arrived, each of them has been printed and the deferred result is still pending; when
  the output then closes the result resolves. A warning with any other code, or an
  error, that arrives in that state rejects the deferred result with that error, and
  nothing that arrives later (the close of the output included) turns the result into a
  success. The listeners do not stop the archiver: when the output closes after the
  rejection, the size of the archive is still printed unless \<^verbatim>\<open>silent\<close> is set.
\<close>

theorem engine_events:
  assumes "\<forall>err \<in> set errs. err_code err = ''ENOENT''"
  shows "settle w po (map ArchiveWarning errs) =
           \<lparr>promise = Pending, console = map LogError errs\<rparr> \<and>
         promise (settle w po (map ArchiveWarning errs @ OutputClose pointer # rest)) = Resolved \<and>
         (err_code err \<noteq> ''ENOENT'' \<longrightarrow>
            promise (settle w po (map ArchiveWarning errs @ ArchiveWarning err # rest))
              = Rejected err \<and>
            settle w po (map ArchiveWarning errs @ [ArchiveWarning err, OutputClose pointer]) =
              \<lparr>promise = Rejected err,
               console = map LogError errs @
                 (if opt_silent po then []
                  else [LogLine (opt_zipName po @ '' size: '' @
                                 formatFileSize (number_toString w) (of_nat pointer))])\<rparr>) \<and>
         promise (settle w po (map ArchiveWarning errs @ ArchiveErrorEvent err # rest))
           = Rejected err \<and>
         settle w po (map ArchiveWarning errs @ [ArchiveErrorEvent err, OutputClose pointer]) =
           \<lparr>promise = Rejected err,
            console = map LogError errs @
              (if opt_silent po then []
               else [LogLine (opt_zipName po @ '' size: '' @
                              formatFileSize (number_toString w) (of_nat pointer))])\<rparr>"
proof -
  let ?c = "\<lparr>promise = Pending, console = map LogError errs\<rparr>"
  have s: "foldl (dispatch w po) \<lparr>promise = Pending, console = []\<rparr> (map ArchiveWarning errs) = ?c"
    using benign_warnings [OF assms, of w po "\<lparr>promise = Pending, console = []\<rparr>"] by simp
  have "promise (dispatch w po ?c (OutputClose pointer)) = Resolved"
    by (simp add: on_close_def resolve_def console_log_def)
  then have closed: "promise (foldl (dispatch w po) (dispatch w po ?c (OutputClose pointer)) rest)
      = Resolved"
    by (simp add: foldl_settled)
  have "promise (dispatch w po ?c (ArchiveErrorEvent err)) = Rejected err"
    by (simp add: on_error_def reject_def)
  then have failed: "promise (foldl (dispatch w po) (dispatch w po ?c (ArchiveErrorEvent err)) rest)
      = Rejected err"
    by (simp add: foldl_settled)
  have warned: "promise (foldl (dispatch w po) (dispatch w po ?c (ArchiveWarning err)) rest)
      = Rejected err" if "err_code err \<noteq> ''ENOENT''"
  proof -
    have "promise (dispatch w po ?c (ArchiveWarning err)) = Rejected err"
      using that by (simp add: on_warning_def reject_def)
    then show ?thesis by (simp add: foldl_settled)
  qed
  have run: "promise (settle w po (map ArchiveWarning errs @ OutputClose pointer # rest)) = Resolved"
    "promise (settle w po (map ArchiveWarning errs @ ArchiveErrorEvent err # rest)) = Rejected err"
    "err_code err \<noteq> ''ENOENT'' \<Longrightarrow>
       promise (settle w po (map ArchiveWarning errs @ ArchiveWarning err # rest)) = Rejected err"
    "settle w po (map ArchiveWarning errs) = ?c"
    using s closed failed warned by (simp_all add: settle_def)
  show ?thesis
    using run rejected_close [OF assms, of "ArchiveErrorEvent err" err w po pointer]
      rejected_close [OF assms, of "ArchiveWarning err" err w po pointer]
    by simp
qed

text \<open>
  The theorem on the test project: a vanished file and then the close; a vanished file,
  an unsupported entry and then the close. The listeners do not stop the archiver, so
  the close that follows the rejection still prints the size; the result stays rejected.
\<close>

theorem engine_events_witness:
  "err_code (ArchiverError ''ENOENT'' ''gone'') = ''ENOENT'' \<and>
   settle dist_project (resolveOptions no_options)
     [ArchiveWarning (ArchiverError ''ENOENT'' ''gone''), OutputClose 1536] =
     \<lparr>promise = Resolved,
      console = [LogError (ArchiverError ''ENOENT'' ''gone''), LogLine ''dist.zip size: 1.50 KB'']\<rparr> \<and>
   settle dist_project (resolveOptions no_options)
     [ArchiveWarning (ArchiverError ''ENOENT'' ''gone''),
      ArchiveWarning (ArchiverError ''ENTRYNOTSUPPORTED'' ''socket''), OutputClose 1536] =
     \<lparr>promise = Rejected (ArchiverError ''ENTRYNOTSUPPORTED'' ''socket''),
      console = [LogError (ArchiverError ''ENOENT'' ''gone''), LogLine ''dist.zip size: 1.50 KB'']\<rparr>"
  using engine_events
    [where errs = "[ArchiverError ''ENOENT'' ''gone'']"
       and err = "ArchiverError ''ENTRYNOTSUPPORTED'' ''socket''"
       and w = dist_project and po = "resolveOptions no_options" and pointer = 1536
       and rest = "[OutputClose 1536]"]
  by (simp add: settle_def on_close_def on_warning_def resolve_def reject_def console_log_def
      resolveOptions_def no_options_def format_1536)

text \<open>
  Claim C6 as the spec words it, an operation that aborts with no partial success
  reported, fails for an unsupported entry followed by the close of the output: the
  result is rejected, the size of the archive is printed all the same, and the run has
  finalized the archive, which it does before any event arrives.
\<close>

theorem rejected_run_goes_on:
  "settle dist_project (resolveOptions no_options)
     [ArchiveWarning (ArchiverError ''ENTRYNOTSUPPORTED'' ''socket''), OutputClose 1536] =
     \<lparr>promise = Rejected (ArchiverError ''ENTRYNOTSUPPORTED'' ''socket''),
      console = [LogLine ''dist.zip size: 1.50 KB'']\<rparr> \<and>
   actions (closeBundle_handler dist_project no_options dist_config None
     [ArchiveWarning (ArchiverError ''ENTRYNOTSUPPORTED'' ''socket''), OutputClose 1536]) =
     [CreateWriteStream ''/proj/dist/dist.zip'',
      ArchiveCall Assembler (Directory ''/proj/dist'' ''dist''),
      BeforeCloseCalled,
      ArchiveCall Assembler Finalize]"
  by (simp add: settle_def on_close_def on_warning_def resolve_def reject_def console_log_def
      format_1536 project_eval run_eval)

text \<open>
  Claim C8. Every run has the form: a trace \<open>pre\<close>, then the invocation of
  \<^verbatim>\<open>beforeClose\<close>, then the calls the hook makes, then the finalization by the
  assembler. The hook is invoked exactly once. \<open>pre\<close> holds neither an invocation of
  the hook nor a finalization by the assembler, and it holds the enumeration, every
  invocation of \<^verbatim>\<open>handleFile\<close> and every insertion by the assembler, so the hook
  runs after all files have been processed and before the archive is finalized. A literal
  content the hook appends is received by the archiver as it is, and its name is among
  the entries of the archive.
\<close>

theorem beforeClose_once:
  "\<exists>pre. zipOutput w po vc =
            pre @ BeforeCloseCalled # map (ArchiveCall UserHook) (opt_beforeClose po pre)
                @ [ArchiveCall Assembler Finalize] \<and>
         BeforeCloseCalled \<notin> set pre \<and>
         ArchiveCall Assembler Finalize \<notin> set pre \<and>
         count_list (zipOutput w po vc) BeforeCloseCalled = 1 \<and>
         (\<forall>e \<in> set (zipOutput w po vc).
            is_GlobSync e \<or> (\<exists>d r. e = HandleFileCalled d r) \<or>
            (\<exists>c. e = ArchiveCall Assembler c \<and> c \<noteq> Finalize) \<longrightarrow> e \<in> set pre) \<and>
         (\<forall>content entryName.
            Append content entryName \<in> set (opt_beforeClose po pre) \<longrightarrow>
              ArchiveCall UserHook (Append content entryName) \<in> set (zipOutput w po vc) \<and>
              entryName \<in> set (archive_entries w (zipOutput w po vc)))"
proof -
  obtain pre where z: "zipOutput w po vc = finish po pre"
    and a: "BeforeCloseCalled \<notin> set pre"
    and b: "ArchiveCall Assembler Finalize \<notin> set pre"
    using zipOutput_finish by blast
  have shape: "zipOutput w po vc =
            pre @ BeforeCloseCalled # map (ArchiveCall UserHook) (opt_beforeClose po pre)
                @ [ArchiveCall Assembler Finalize]"
    using z by (simp add: finish_def)
  have "count_list pre BeforeCloseCalled = 0"
    using a by (simp add: count_list_0_iff)
  moreover have "count_list (map (ArchiveCall UserHook) cs) BeforeCloseCalled = 0" for cs
    by (induction cs) simp_all
  ultimately have once: "count_list (zipOutput w po vc) BeforeCloseCalled = 1"
    by (simp add: shape)
  have early: "e \<in> set pre"
    if "e \<in> set (zipOutput w po vc)"
      "is_GlobSync e \<or> (\<exists>d r. e = HandleFileCalled d r) \<or>
       (\<exists>c. e = ArchiveCall Assembler c \<and> c \<noteq> Finalize)" for e
    using that by (auto simp: shape)
  have kept: "ArchiveCall UserHook (Append content entryName) \<in> set (zipOutput w po vc) \<and>
              entryName \<in> set (archive_entries w (zipOutput w po vc))"
    if "Append content entryName \<in> set (opt_beforeClose po pre)" for content entryName
  proof
    show c: "ArchiveCall UserHook (Append content entryName) \<in> set (zipOutput w po vc)"
      using that by (simp add: shape)
    then have "Append content entryName \<in> set (archive_calls (zipOutput w po vc))"
      by (auto simp: archive_calls_mem)
    then show "entryName \<in> set (archive_entries w (zipOutput w po vc))"
      by (force simp: archive_entries_def)
  qed
  show ?thesis
    using shape a b once early kept by blast
qed

text \<open>The theorem on the test project, with the hook of the test suite.\<close>

theorem beforeClose_once_witness:
  "zipOutput dist_project (resolveOptions (no_options\<lparr>user_beforeClose := Some add_custom\<rparr>))
     dist_config =
     [CreateWriteStream ''/proj/dist/dist.zip'',
      ArchiveCall Assembler (Directory ''/proj/dist'' ''dist''),
      BeforeCloseCalled,
      ArchiveCall UserHook (Append ''Custom content'' ''custom-file.txt''),
      ArchiveCall Assembler Finalize] \<and>
   ''custom-file.txt'' \<in> set (archive_entries dist_project
      (zipOutput dist_project (resolveOptions (no_options\<lparr>user_beforeClose := Some add_custom\<rparr>))
         dist_config))"
  using beforeClose_once
    [of dist_project "resolveOptions (no_options\<lparr>user_beforeClose := Some add_custom\<rparr>)"
        dist_config]
  by (simp add: project_eval run_eval)

text \<open>
  Claim C9, as the code has it. The first event of every run opens the write stream of
  the archive, no later event opens one, and on the general path the enumeration comes
  after it. On the general path, when the enumeration primitive finds the archive file on
  disk as a plain file, an include pattern matches its path, no exclude pattern does, and
  no \<^verbatim>\<open>handleFile\<close> hook returns true for it, the assembler inserts the archive
  file itself, under its path relative to the root. Conversely the assembler inserts
  the archive file only on the general path and only when the enumeration found it on
  disk as a plain file that an include pattern matches and no exclude pattern does.
  Whether the file is on disk when the enumeration runs is the runtime's, which opens the
  file of a write stream on its own schedule: the trace records that the stream was
  asked for.
\<close>

theorem archive_own_entry:
  fixes w po vc
  defines "ZIP_OUT_FILE \<equiv> path_join w (path_join w (root vc) (outDir vc)) (opt_zipName po)"
  shows "(\<exists>rest. zipOutput w po vc = CreateWriteStream ZIP_OUT_FILE # rest \<and>
                 (\<forall>p. CreateWriteStream p \<notin> set rest) \<and>
                 (\<not> fastpath po \<longrightarrow>
                    GlobSync (opt_include po) (root vc) (excludeArr po) \<in> set rest)) \<and>
         (\<not> fastpath po \<and> d \<in> set (fs_entries w) \<and> isFile d \<and>
          path_join w (parentPath d) (name d) = ZIP_OUT_FILE \<and>
          list_ex (\<lambda>g. glob_matches w (root vc) g ZIP_OUT_FILE) (pattern_list (opt_include po)) \<and>
          \<not> list_ex (\<lambda>g. glob_matches w (root vc) g ZIP_OUT_FILE) (excludeArr po) \<and>
          (\<forall>h tr. opt_handleFile po = Some h \<longrightarrow> \<not> fst (h tr d)) \<longrightarrow>
            ArchiveCall Assembler
              (File ZIP_OUT_FILE (path_relative w (root vc) ZIP_OUT_FILE))
              \<in> set (zipOutput w po vc)) \<and>
         ((\<exists>entryName. ArchiveCall Assembler (File ZIP_OUT_FILE entryName)
              \<in> set (zipOutput w po vc)) \<longrightarrow>
            \<not> fastpath po \<and>
            (\<exists>d' \<in> set (fs_entries w). isFile d' \<and>
               path_join w (parentPath d') (name d') = ZIP_OUT_FILE \<and>
               list_ex (\<lambda>g. glob_matches w (root vc) g ZIP_OUT_FILE)
                 (pattern_list (opt_include po)) \<and>
               \<not> list_ex (\<lambda>g. glob_matches w (root vc) g ZIP_OUT_FILE) (excludeArr po)))"
proof (intro conjI impI)
  show "\<exists>rest. zipOutput w po vc = CreateWriteStream ZIP_OUT_FILE # rest \<and>
                 (\<forall>p. CreateWriteStream p \<notin> set rest) \<and>
                 (\<not> fastpath po \<longrightarrow>
                    GlobSync (opt_include po) (root vc) (excludeArr po) \<in> set rest)"
  proof (cases "fastpath po")
    case True
    then show ?thesis
      by (auto simp: zipOutput_fast ZIP_OUT_FILE_def)
  next
    case False
    let ?tr = "[CreateWriteStream ZIP_OUT_FILE,
           GlobSync (opt_include po) (root vc) (excludeArr po)]"
    let ?ds = "globSync w (opt_include po) (root vc) (excludeArr po)"
    obtain added where added: "for_allFiles w po (root vc) ?tr ?ds = ?tr @ added"
      and nostream: "\<And>p. CreateWriteStream p \<notin> set added"
      by (rule for_allFiles_added [of w po "root vc" ?tr ?ds]) blast
    have "zipOutput w po vc = finish po (?tr @ added)"
      using False added by (simp add: zipOutput_general ZIP_OUT_FILE_def)
    then show ?thesis
      using nostream by (auto simp: finish_def)
  qed
next
  assume h: "\<not> fastpath po \<and> d \<in> set (fs_entries w) \<and> isFile d \<and>
          path_join w (parentPath d) (name d) = ZIP_OUT_FILE \<and>
          list_ex (\<lambda>g. glob_matches w (root vc) g ZIP_OUT_FILE) (pattern_list (opt_include po)) \<and>
          \<not> list_ex (\<lambda>g. glob_matches w (root vc) g ZIP_OUT_FILE) (excludeArr po) \<and>
          (\<forall>h tr. opt_handleFile po = Some h \<longrightarrow> \<not> fst (h tr d))"
  let ?tr = "[CreateWriteStream ZIP_OUT_FILE,
           GlobSync (opt_include po) (root vc) (excludeArr po)]"
  let ?ds = "globSync w (opt_include po) (root vc) (excludeArr po)"
  have "d \<in> set ?ds"
    using h by (simp add: globSync_mem)
  then have "ArchiveCall Assembler (default_entry w (root vc) d)
       \<in> set (for_allFiles w po (root vc) ?tr ?ds)"
    using h by (intro for_allFiles_inserts) auto
  moreover have "default_entry w (root vc) d =
       File ZIP_OUT_FILE (path_relative w (root vc) ZIP_OUT_FILE)"
    using h by (simp add: default_entry_File)
  moreover have "zipOutput w po vc = finish po (for_allFiles w po (root vc) ?tr ?ds)"
    using h by (simp add: zipOutput_general ZIP_OUT_FILE_def)
  ultimately show "ArchiveCall Assembler
              (File ZIP_OUT_FILE (path_relative w (root vc) ZIP_OUT_FILE))
              \<in> set (zipOutput w po vc)"
    by (simp add: finish_def)
next
  assume "\<exists>entryName. ArchiveCall Assembler (File ZIP_OUT_FILE entryName)
              \<in> set (zipOutput w po vc)"
  then obtain entryName where
    "ArchiveCall Assembler (File ZIP_OUT_FILE entryName) \<in> set (zipOutput w po vc)"
    by blast
  from own_entry_origin [OF this]
  show "\<not> fastpath po"
    and "\<exists>d' \<in> set (fs_entries w). isFile d' \<and>
               path_join w (parentPath d') (name d') = ZIP_OUT_FILE \<and>
               list_ex (\<lambda>g. glob_matches w (root vc) g ZIP_OUT_FILE)
                 (pattern_list (opt_include po)) \<and>
               \<not> list_ex (\<lambda>g. glob_matches w (root vc) g ZIP_OUT_FILE) (excludeArr po)"
    by blast+
qed

text \<open>
  The theorem on the test project with the archive of the run in its output directory,
  and an exclude pattern that makes the run take the general path.
\<close>

theorem archive_own_entry_witness:
  "\<not> fastpath (resolveOptions (no_options\<lparr>user_exclude := Some (Many [''dist/**/*.svg''])\<rparr>)) \<and>
   dist_zip \<in> set (fs_entries zip_project) \<and> isFile dist_zip \<and>
   path_join zip_project (parentPath dist_zip) (name dist_zip) = ''/proj/dist/dist.zip'' \<and>
   glob_matches zip_project (root dist_config) ''dist/**/*'' ''/proj/dist/dist.zip'' \<and>
   \<not> glob_matches zip_project (root dist_config) ''dist/**/*.svg'' ''/proj/dist/dist.zip'' \<and>
   opt_handleFile (resolveOptions (no_options\<lparr>user_exclude := Some (Many [''dist/**/*.svg''])\<rparr>))
     = None \<and>
   ArchiveCall Assembler (File ''/proj/dist/dist.zip'' ''dist/dist.zip'')
     \<in> set (zipOutput zip_project
         (resolveOptions (no_options\<lparr>user_exclude := Some (Many [''dist/**/*.svg''])\<rparr>))
         dist_config)"
  using archive_own_entry
    [of zip_project
        "resolveOptions (no_options\<lparr>user_exclude := Some (Many [''dist/**/*.svg''])\<rparr>)"
        dist_config dist_zip]
  by (simp add: project_eval run_eval)

text \<open>
  Claim C9 as worded, an entry for the archive in any configuration whose include
  patterns match the archive's own path and whose exclude patterns do not, fails twice.
  In a fresh output directory the write stream has been asked for but the enumeration
  does not find the archive on disk, and the archive has no entry for it. And when the
  enumeration does find it, a \<^verbatim>\<open>handleFile\<close> hook that claims the entry keeps it out.
\<close>

theorem no_own_entry:
  "\<not> fastpath (resolveOptions (no_options\<lparr>user_include := Some (Many [''dist/**/*''])\<rparr>)) \<and>
   glob_matches dist_project (root dist_config) ''dist/**/*'' ''/proj/dist/dist.zip'' \<and>
   excludeArr (resolveOptions (no_options\<lparr>user_include := Some (Many [''dist/**/*''])\<rparr>)) = [] \<and>
   opt_handleFile (resolveOptions (no_options\<lparr>user_include := Some (Many [''dist/**/*''])\<rparr>))
     = None \<and>
   zipOutput dist_project
     (resolveOptions (no_options\<lparr>user_include := Some (Many [''dist/**/*''])\<rparr>)) dist_config =
     [CreateWriteStream ''/proj/dist/dist.zip'',
      GlobSync (Many [''dist/**/*'']) ''/proj'' [],
      ArchiveCall Assembler (File ''/proj/dist/index.html'' ''dist/index.html''),
      ArchiveCall Assembler (File ''/proj/dist/app.js'' ''dist/app.js''),
      ArchiveCall Assembler (File ''/proj/dist/assets/logo.svg'' ''dist/assets/logo.svg''),
      BeforeCloseCalled,
      ArchiveCall Assembler Finalize] \<and>
   \<not> fastpath (resolveOptions (no_options\<lparr>user_handleFile := Some claim_zip\<rparr>)) \<and>
   excludeArr (resolveOptions (no_options\<lparr>user_handleFile := Some claim_zip\<rparr>)) = [] \<and>
   dist_zip \<in> set (globSync zip_project (Single ''dist/**/*'') (root dist_config) []) \<and>
   archive_calls
     (zipOutput zip_project (resolveOptions (no_options\<lparr>user_handleFile := Some claim_zip\<rparr>))
        dist_config) =
     [File ''/proj/dist/index.html'' ''dist/index.html'',
      File ''/proj/dist/app.js'' ''dist/app.js'',
      File ''/proj/dist/assets/logo.svg'' ''dist/assets/logo.svg'', Finalize]"
  by (simp add: project_eval run_eval)

text \<open>
  Claim C10. On the fast path the assembler's calls on the archiver are the directory
  entry for the output directory, rooted at the literal name \<^verbatim>\<open>dist\<close>, and the
  finalization, whatever \<^verbatim>\<open>outDir\<close> is; every file the archiver finds in the output
  directory is an entry of the archive under \<^verbatim>\<open>dist/\<close>.
\<close>

theorem fastpath_rooted_at_dist:
  assumes "fastpath po"
  shows "assembler_calls (zipOutput w po vc) =
           [Directory (path_join w (root vc) (outDir vc)) ''dist'', Finalize] \<and>
         (\<forall>rel \<in> set (dir_walk w (path_join w (root vc) (outDir vc))).
            ''dist/'' @ rel \<in> set (archive_entries w (zipOutput w po vc)))"
  using fast_observed(1) [OF assms, of w vc] fast_entries [OF assms, of w vc] by auto

text \<open>The theorem on the project whose output directory is \<^verbatim>\<open>build\<close>.\<close>

theorem fastpath_rooted_at_dist_witness:
  "fastpath (resolveOptions no_options) \<and>
   assembler_calls (zipOutput build_project (resolveOptions no_options) build_config) =
     [Directory ''/proj/build'' ''dist'', Finalize] \<and>
   ''dist/index.html'' \<in> set (archive_entries build_project
      (zipOutput build_project (resolveOptions no_options) build_config))"
  using fastpath_rooted_at_dist [of "resolveOptions no_options" build_project build_config]
  by (simp add: project_eval run_eval)

end
